theory Spec2Isabelle
  imports Complex_Main "HOL-Library.Char_ord" "HOL-Library.List_Lexorder" "HOL-Library.Multiset"
begin

section \<open>Smart Money: the storage tables and the aggregation functions of app.py\<close>

text \<open>
  The program keeps three SQLite tables (incomes, expenses, targets) and computes its
  figures from full-table scans. Conventions of this development:
  \<^item> a finite SQL \<open>REAL\<close> or Python float is the \<open>real\<close> number it stands for. The float
    operations are a parameter \<open>A\<close> of every function that computes: \<open>exact\<close> is arithmetic
    without rounding, \<open>binary64\<close> rounds every result to the nearest double. Overflow to
    infinity, underflow and NaN are outside the model;
  \<^item> a table is the list of its rows in insertion order plus the \<open>AUTOINCREMENT\<close> counter
    that SQLite keeps in \<open>sqlite_sequence\<close>;
  \<^item> \<open>pd.to_datetime(..., errors='coerce')\<close> is a library function and is taken as a
    parameter \<open>P\<close> mapping each stored string to a date, or to \<open>None\<close> for \<open>NaT\<close>;
  \<^item> a Python exception is a value \<open>Inl e\<close> of a sum type.
\<close>

subsection \<open>Dates and their text forms\<close>

record date =
  year :: nat
  month :: nat
  day :: nat

definition digit :: "nat \<Rightarrow> char" where
  "digit n = char_of (48 + n mod 10)"

definition fmt2 :: "nat \<Rightarrow> string" where
  "fmt2 n = [digit (n div 10), digit n]"

definition fmt4 :: "nat \<Rightarrow> string" where
  "fmt4 n = [digit (n div 1000), digit (n div 100), digit (n div 10), digit n]"

text \<open>\<open>date.isoformat()\<close>: \<open>YYYY-MM-DD\<close> (years of \<open>datetime\<close> run from 1 to 9999).\<close>

definition isoformat :: "date \<Rightarrow> string" where
  "isoformat d = fmt4 (year d) @ ''-'' @ fmt2 (month d) @ ''-'' @ fmt2 (day d)"

text \<open>\<open>.dt.strftime('%Y-%m')\<close> on one timestamp.\<close>

definition strftime_ym :: "date \<Rightarrow> string" where
  "strftime_ym d = fmt4 (year d) @ ''-'' @ fmt2 (month d)"

text \<open>\<open>.dt.to_period('M').astype(str)\<close> on one timestamp: a monthly period prints as \<open>YYYY-MM\<close>.\<close>

definition period_M_str :: "date \<Rightarrow> string" where
  "period_M_str d = fmt4 (year d) @ ''-'' @ fmt2 (month d)"

text \<open>The argument of the \<open>add_*\<close> functions is a date object (from the date widget) or anything else.\<close>

datatype date_arg = DateObj date | Other string

fun to_iso :: "date_arg \<Rightarrow> string" where
  "to_iso (DateObj d) = isoformat d"
| "to_iso (Other s) = s"

subsection \<open>Rows, tables and the database\<close>

record row =
  row_id :: nat

record 'd entry = row +
  amount :: real
  the_date :: 'd

record 'd income_row = "'d entry" +
  source :: string

record 'd expense_row = "'d entry" +
  category :: string
  description :: string

record 'd target_row = row +
  target_name :: string
  target_amount :: real
  target_date :: 'd
  created_at :: string

record 'r table =
  tbl_rows :: "'r list"
  tbl_seq :: nat

record db =
  incomes :: "string income_row table"
  expenses :: "string expense_row table"
  targets :: "string target_row table"

definition empty_table :: "'r table" where
  "empty_table = \<lparr>tbl_rows = [], tbl_seq = 0\<rparr>"

text \<open>\<open>init_db\<close> on a fresh file: three empty tables.\<close>

definition init_db :: db where
  "init_db = \<lparr>incomes = empty_table, expenses = empty_table, targets = empty_table\<rparr>"

text \<open>
  \<open>INSERT\<close> into a table whose key is \<open>INTEGER PRIMARY KEY AUTOINCREMENT\<close>: the new id is
  one more than the largest id the table has ever held.
\<close>

definition next_id :: "('a row_scheme) table \<Rightarrow> nat" where
  "next_id t = Suc (fold max (map row_id (tbl_rows t)) (tbl_seq t))"

definition insert_row :: "(nat \<Rightarrow> 'a row_scheme) \<Rightarrow> ('a row_scheme) table \<Rightarrow> ('a row_scheme) table" where
  "insert_row mk t = (let i = next_id t in \<lparr>tbl_rows = tbl_rows t @ [mk i], tbl_seq = i\<rparr>)"

text \<open>\<open>DELETE FROM t WHERE id=?\<close>.\<close>

definition delete_row :: "nat \<Rightarrow> ('a row_scheme) table \<Rightarrow> ('a row_scheme) table" where
  "delete_row i t = t\<lparr>tbl_rows := filter (\<lambda>r. row_id r \<noteq> i) (tbl_rows t)\<rparr>"

definition add_income :: "real \<Rightarrow> string \<Rightarrow> date_arg \<Rightarrow> db \<Rightarrow> db" where
  "add_income amt src d s =
     s\<lparr>incomes := insert_row
         (\<lambda>i. \<lparr>row_id = i, amount = amt, the_date = to_iso d, source = src\<rparr>) (incomes s)\<rparr>"

definition add_expense :: "real \<Rightarrow> string \<Rightarrow> string \<Rightarrow> date_arg \<Rightarrow> db \<Rightarrow> db" where
  "add_expense amt cat desc d s =
     s\<lparr>expenses := insert_row
         (\<lambda>i. \<lparr>row_id = i, amount = amt, the_date = to_iso d, category = cat, description = desc\<rparr>)
         (expenses s)\<rparr>"

text \<open>\<open>now\<close> stands for \<open>datetime.now().isoformat()\<close>.\<close>

definition add_target :: "string \<Rightarrow> real \<Rightarrow> date_arg \<Rightarrow> string \<Rightarrow> db \<Rightarrow> db" where
  "add_target nm amt d now s =
     s\<lparr>targets := insert_row
         (\<lambda>i. \<lparr>row_id = i, target_name = nm, target_amount = amt, target_date = to_iso d,
               created_at = now\<rparr>) (targets s)\<rparr>"

definition delete_target :: "nat \<Rightarrow> db \<Rightarrow> db" where
  "delete_target target_id s = s\<lparr>targets := delete_row target_id (targets s)\<rparr>"

subsection \<open>Reading the tables\<close>

text \<open>
  \<open>ORDER BY col DESC\<close> compares the stored text byte by byte. Rows with equal keys come out
  in insertion order, as SQLite's sorter returns them.
\<close>

definition order_by_desc :: "('r \<Rightarrow> string) \<Rightarrow> 'r list \<Rightarrow> 'r list" where
  "order_by_desc k rs = rev (sort_key k (rev rs))"

text \<open>\<open>query_df\<close> converts every column whose name contains \<open>date\<close>.\<close>

definition income_df :: "(string \<Rightarrow> date option) \<Rightarrow> string income_row \<Rightarrow> date option income_row" where
  "income_df P r = \<lparr>row_id = row_id r, amount = amount r, the_date = P (the_date r), source = source r\<rparr>"

definition expense_df :: "(string \<Rightarrow> date option) \<Rightarrow> string expense_row \<Rightarrow> date option expense_row" where
  "expense_df P r = \<lparr>row_id = row_id r, amount = amount r, the_date = P (the_date r),
                      category = category r, description = description r\<rparr>"

definition target_df :: "(string \<Rightarrow> date option) \<Rightarrow> string target_row \<Rightarrow> date option target_row" where
  "target_df P r = \<lparr>row_id = row_id r, target_name = target_name r, target_amount = target_amount r,
                     target_date = P (target_date r), created_at = created_at r\<rparr>"

definition get_all_incomes :: "(string \<Rightarrow> date option) \<Rightarrow> db \<Rightarrow> date option income_row list" where
  "get_all_incomes P s = map (income_df P) (order_by_desc the_date (tbl_rows (incomes s)))"

definition get_all_expenses :: "(string \<Rightarrow> date option) \<Rightarrow> db \<Rightarrow> date option expense_row list" where
  "get_all_expenses P s = map (expense_df P) (order_by_desc the_date (tbl_rows (expenses s)))"

definition get_targets :: "(string \<Rightarrow> date option) \<Rightarrow> db \<Rightarrow> date option target_row list" where
  "get_targets P s = map (target_df P) (order_by_desc created_at (tbl_rows (targets s)))"

subsection \<open>Float arithmetic\<close>

text \<open>
  The operations the program applies to floats: \<open>Series.sum()\<close>, the sum inside
  \<open>groupby(...).sum()\<close>, and \<open>-\<close>, \<open>*\<close>, \<open>/\<close>. Comparisons of floats, and of a float with
  an integer, compare the numbers themselves and need no parameter.
\<close>

record arith =
  series_sum :: "real list \<Rightarrow> real"
  group_sum :: "real list \<Rightarrow> real"
  fsub :: "real \<Rightarrow> real \<Rightarrow> real"
  fmul :: "real \<Rightarrow> real \<Rightarrow> real"
  fdiv :: "real \<Rightarrow> real \<Rightarrow> real"

definition exact :: arith where
  "exact = \<lparr>series_sum = sum_list, group_sum = sum_list,
            fsub = (\<lambda>a b. a - b), fmul = (\<lambda>a b. a * b), fdiv = (\<lambda>a b. a / b)\<rparr>"

text \<open>
  IEEE 754 binary64 with round to nearest, ties to even, for results inside the normal range:
  \<open>fl x\<close> is the double nearest to \<open>x\<close>. \<open>binade n x\<close> finds, in at most \<open>n\<close> steps, the \<open>e\<close>
  with \<open>2^e \<le> x < 2^(e+1)\<close>.
\<close>

definition rne :: "real \<Rightarrow> int" where
  "rne q = (let f = \<lfloor>q\<rfloor>; r = q - of_int f
            in if r < 1 / 2 then f else if 1 / 2 < r then f + 1 else if even f then f else f + 1)"

fun binade :: "nat \<Rightarrow> real \<Rightarrow> int" where
  "binade 0 x = 0"
| "binade (Suc n) x =
     (if 2 \<le> x then binade n (x / 2) + 1 else if x < 1 then binade n (2 * x) - 1 else 0)"

definition pow2 :: "int \<Rightarrow> real" where
  "pow2 e = (if 0 \<le> e then 2 ^ nat e else 1 / 2 ^ nat (- e))"

definition fl :: "real \<Rightarrow> real" where
  "fl x = (if x = 0 then 0
           else let e = binade 2200 \<bar>x\<bar> in real_of_int (rne (x / pow2 (e - 52))) * pow2 (e - 52))"

text \<open>
  numpy adds a short array from left to right; the grouped sum of pandas is a compensated
  (Kahan) sum, kept here as the pair of the running sum and its compensation.
\<close>

definition kahan_step :: "real \<times> real \<Rightarrow> real \<Rightarrow> real \<times> real" where
  "kahan_step sc v =
     (let y = fl (v - snd sc); t = fl (fst sc + y)
      in (t, fl (fl (t - fst sc) - y)))"

definition binary64 :: arith where
  "binary64 = \<lparr>series_sum = foldl (\<lambda>a b. fl (a + b)) 0,
               group_sum = (\<lambda>vs. fst (foldl kahan_step (0, 0) vs)),
               fsub = (\<lambda>a b. fl (a - b)), fmul = (\<lambda>a b. fl (a * b)), fdiv = (\<lambda>a b. fl (a / b))\<rparr>"

subsection \<open>Business logic\<close>

datatype py_error = ZeroDivisionError | IndexError

text \<open>Float division as Python defines it: a zero divisor raises.\<close>

definition truediv :: "arith \<Rightarrow> real \<Rightarrow> real \<Rightarrow> py_error + real" where
  "truediv A a b = (if b = 0 then Inl ZeroDivisionError else Inr (fdiv A a b))"

text \<open>\<open>df['amount'].sum()\<close>.\<close>

definition amount_total :: "arith \<Rightarrow> ('d, 'a) entry_scheme list \<Rightarrow> real" where
  "amount_total A df = series_sum A (map amount df)"

text \<open>\<open>df['the_date'].dt.strftime('%Y-%m') == month_year\<close>, row by row; \<open>NaT\<close> compares unequal.\<close>

definition in_month :: "string \<Rightarrow> (date option, 'a) entry_scheme \<Rightarrow> bool" where
  "in_month m r = (case the_date r of None \<Rightarrow> False | Some t \<Rightarrow> strftime_ym t = m)"

text \<open>The truth value of the argument in \<open>if month_year:\<close>.\<close>

fun truthy :: "string option \<Rightarrow> bool" where
  "truthy None = False"
| "truthy (Some m) = (m \<noteq> [])"

text \<open>
  The dictionary returned by \<open>monthly_summary\<close> and a row of the monthly frame both have the
  columns \<open>income\<close> and \<open>expense\<close>; they share them through a common base record.
\<close>

record totals =
  income :: real
  expense :: real

record summary = totals +
  saved :: real
  saving_rate :: real

record month_row = totals +
  ym :: string

text \<open>The tail of \<open>monthly_summary\<close>, after the optional month filter.\<close>

definition summarise :: "arith \<Rightarrow> (date option, 'a) entry_scheme list
    \<Rightarrow> (date option, 'b) entry_scheme list \<Rightarrow> py_error + summary" where
  "summarise A incs exps =
     (let total_in = (if incs \<noteq> [] then amount_total A incs else 0);
          total_out = (if exps \<noteq> [] then amount_total A exps else 0);
          sv = fsub A total_in total_out
      in case (if total_in > 0 then map_sum id (\<lambda>q. fmul A q 100) (truediv A sv total_in)
               else Inr 0) of
           Inl e \<Rightarrow> Inl e
         | Inr rate \<Rightarrow> Inr \<lparr>income = total_in, expense = total_out, saved = sv, saving_rate = rate\<rparr>)"

definition monthly_summary ::
    "arith \<Rightarrow> (string \<Rightarrow> date option) \<Rightarrow> db \<Rightarrow> string option \<Rightarrow> py_error + summary" where
  "monthly_summary A P s month_year =
     (let incs = get_all_incomes P s;
          exps = get_all_expenses P s
      in if truthy month_year
         then summarise A (filter (in_month (the month_year)) incs)
                          (filter (in_month (the month_year)) exps)
         else summarise A incs exps)"

definition compute_progress_against_target ::
    "arith \<Rightarrow> (string \<Rightarrow> date option) \<Rightarrow> db \<Rightarrow> 'd target_row \<Rightarrow> py_error + real \<times> real" where
  "compute_progress_against_target A P s target =
     (let total_saved = fsub A (amount_total A (get_all_incomes P s))
                               (amount_total A (get_all_expenses P s))
      in case (if target_amount target > 0
               then map_sum id (\<lambda>q. min 100 (max 0 (fmul A q 100)))
                      (truediv A total_saved (target_amount target))
               else Inr 0) of
           Inl e \<Rightarrow> Inl e
         | Inr percent \<Rightarrow> Inr (total_saved, percent))"

text \<open>A list comprehension whose element expression may raise: the first exception ends it.\<close>

fun collect :: "('a \<Rightarrow> py_error + 'b) \<Rightarrow> 'a list \<Rightarrow> py_error + 'b list" where
  "collect f [] = Inr []"
| "collect f (x # xs) =
     (case f x of
        Inl e \<Rightarrow> Inl e
      | Inr y \<Rightarrow> (case collect f xs of Inl e \<Rightarrow> Inl e | Inr ys \<Rightarrow> Inr (y # ys)))"

text \<open>
  The \<open>for m, rate in reversed(seq)\<close> loop, on the reversed list, with its counter. The rates
  it compares are the floats that \<open>monthly_summary\<close> computed.
\<close>

fun streak_loop :: "real \<Rightarrow> (string \<times> real) list \<Rightarrow> nat \<Rightarrow> nat" where
  "streak_loop threshold_rate [] consecutive = consecutive"
| "streak_loop threshold_rate ((m, rate) # rest) consecutive =
     (if rate \<ge> threshold_rate then streak_loop threshold_rate rest (consecutive + 1)
      else consecutive)"

text \<open>\<open>dropna(subset=['the_date'])\<close> followed by the \<open>ym\<close> column made with \<open>fmt\<close>.\<close>

definition ym_column :: "(date \<Rightarrow> string) \<Rightarrow> (date option, 'a) entry_scheme list \<Rightarrow> string list" where
  "ym_column fmt rs = map (\<lambda>r. fmt (the (the_date r))) (filter (\<lambda>r. the_date r \<noteq> None) rs)"

definition consecutive_saving_months ::
    "arith \<Rightarrow> (string \<Rightarrow> date option) \<Rightarrow> db \<Rightarrow> real \<Rightarrow> py_error + nat \<times> (string \<times> real) list" where
  "consecutive_saving_months A P s threshold_rate =
     (let incs = get_all_incomes P s;
          exps = get_all_expenses P s
      in if incs = [] \<and> exps = [] then Inr (0, [])
         else
           let months = sort (remdups (ym_column strftime_ym incs @ ym_column strftime_ym exps))
           in case collect (\<lambda>m. map_sum id (\<lambda>r. (m, saving_rate r))
                                   (monthly_summary A P s (Some m)))
                     months of
                Inl e \<Rightarrow> Inl e
              | Inr seq \<Rightarrow> Inr (streak_loop threshold_rate (rev seq) 0, seq))"

text \<open>\<open>groupby('ym')['amount'].sum().reset_index()\<close>: one row per key, keys ascending.\<close>

definition groupby_sum :: "arith \<Rightarrow> (string \<times> real) list \<Rightarrow> (string \<times> real) list" where
  "groupby_sum A kvs =
     map (\<lambda>k. (k, group_sum A (map snd (filter (\<lambda>kv. fst kv = k) kvs))))
         (sort (remdups (map fst kvs)))"

definition ym_amounts :: "(date \<Rightarrow> string) \<Rightarrow> (date option, 'a) entry_scheme list \<Rightarrow> (string \<times> real) list" where
  "ym_amounts fmt rs =
     map (\<lambda>r. (fmt (the (the_date r)), amount r)) (filter (\<lambda>r. the_date r \<noteq> None) rs)"

text \<open>\<open>pd.merge(l, r, on='ym', how='outer').fillna(0)\<close> for frames whose keys are unique.\<close>

definition merge_outer :: "(string \<times> real) list \<Rightarrow> (string \<times> real) list \<Rightarrow> month_row list" where
  "merge_outer l r =
     map (\<lambda>k. \<lparr>income = (case map_of l k of None \<Rightarrow> 0 | Some v \<Rightarrow> v),
               expense = (case map_of r k of None \<Rightarrow> 0 | Some v \<Rightarrow> v),
               ym = k\<rparr>)
         (sort (remdups (map fst l @ map fst r)))"

definition prepare_monthly_df :: "arith \<Rightarrow> (string \<Rightarrow> date option) \<Rightarrow> db \<Rightarrow> month_row list" where
  "prepare_monthly_df A P s =
     (let inc = get_all_incomes P s;
          exp = get_all_expenses P s;
          inc_month = groupby_sum A (ym_amounts period_M_str inc);
          exp_month = groupby_sum A (ym_amounts period_M_str exp);
          month_df = merge_outer inc_month exp_month
      in sort_key ym month_df)"

subsection \<open>The pages that change or project the data\<close>

datatype message = Error string | Success string | Warning string | Info string

text \<open>Page "Tambah Transaksi": the two form handlers.\<close>

definition submit_income :: "real \<Rightarrow> string \<Rightarrow> date \<Rightarrow> db \<Rightarrow> db \<times> message" where
  "submit_income inc_amount inc_source inc_date s =
     (if inc_amount \<le> 0 then (s, Error ''Masukkan jumlah pemasukan > 0'')
      else (add_income inc_amount inc_source (DateObj inc_date) s, Success ''Pemasukan tersimpan.''))"

definition submit_expense :: "real \<Rightarrow> string \<Rightarrow> string \<Rightarrow> date \<Rightarrow> db \<Rightarrow> db \<times> message" where
  "submit_expense exp_amount exp_category exp_desc exp_date s =
     (if exp_amount \<le> 0 then (s, Error ''Masukkan jumlah pengeluaran > 0'')
      else (add_expense exp_amount exp_category exp_desc (DateObj exp_date) s,
            Success ''Pengeluaran tersimpan.''))"

text \<open>
  Page "Riwayat": the delete buttons. The id field and the button exist only while the
  table has rows; id 0 means cancel. The statement runs whether or not the id exists.
\<close>

definition delete_income_clicked :: "nat \<Rightarrow> db \<Rightarrow> db \<times> message option" where
  "delete_income_clicked to_del s =
     (if tbl_rows (incomes s) = [] then (s, Some (Info ''Belum ada pemasukan tercatat.''))
      else if to_del > 0
           then (s\<lparr>incomes := delete_row to_del (incomes s)\<rparr>, Some (Success ''Pemasukan dihapus.''))
           else (s, None))"

definition delete_expense_clicked :: "nat \<Rightarrow> db \<Rightarrow> db \<times> message option" where
  "delete_expense_clicked to_del_e s =
     (if tbl_rows (expenses s) = [] then (s, Some (Info ''Belum ada pengeluaran tercatat.''))
      else if to_del_e > 0
           then (s\<lparr>expenses := delete_row to_del_e (expenses s)\<rparr>, Some (Success ''Pengeluaran dihapus.''))
           else (s, None))"

definition delete_target_clicked :: "nat \<Rightarrow> db \<Rightarrow> db \<times> message option" where
  "delete_target_clicked to_del_t s =
     (if tbl_rows (targets s) = [] then (s, Some (Info ''Belum ada target.''))
      else if to_del_t > 0
           then (delete_target to_del_t s, Some (Success ''Target dihapus.''))
           else (s, None))"

text \<open>
  Page "Target & Simulasi": the simulation block. \<open>float('inf')\<close> is the value \<open>PosInf\<close>; the
  block shows a warning for it and the estimate otherwise. A quotient is a finite float
  here, so only the \<open>else\<close> branch gives \<open>PosInf\<close>.
\<close>

datatype pyfloat = Fin real | PosInf

datatype projection = Unreachable | Estimate real real

record simulation =
  avg_income :: real
  avg_expense :: real
  shown :: "projection option"

definition average :: "arith \<Rightarrow> ('d, 'a) entry_scheme list \<Rightarrow> py_error + real" where
  "average A df =
     (if df \<noteq> [] then truediv A (amount_total A df) (real (max 1 (length df))) else Inr 0)"

definition project ::
    "arith \<Rightarrow> real \<Rightarrow> real \<Rightarrow> real \<Rightarrow> int \<Rightarrow> 'd target_row \<Rightarrow> py_error + projection" where
  "project A avg_inc avg_exp saved_now reduction t0 =
     (let reduced_expense = fmul A avg_exp (fsub A 1 (fdiv A (real_of_int reduction) 100));
          new_monthly_saving = max 0 (fsub A avg_inc reduced_expense);
          remaining = max 0 (fsub A (target_amount t0) saved_now)
      in case (if new_monthly_saving > 0 then map_sum id Fin (truediv A remaining new_monthly_saving)
               else Inr PosInf) of
           Inl e \<Rightarrow> Inl e
         | Inr months_needed \<Rightarrow>
             (case months_needed of
                PosInf \<Rightarrow> Inr Unreachable
              | Fin mn \<Rightarrow> Inr (Estimate new_monthly_saving mn)))"

definition simulate ::
    "arith \<Rightarrow> (string \<Rightarrow> date option) \<Rightarrow> int \<Rightarrow> db \<Rightarrow> py_error + simulation" where
  "simulate A P reduction s =
     (let inc_df = get_all_incomes P s;
          exp_df = get_all_expenses P s
      in case average A inc_df of
           Inl e \<Rightarrow> Inl e
         | Inr avg_inc \<Rightarrow>
             (case average A exp_df of
                Inl e \<Rightarrow> Inl e
              | Inr avg_exp \<Rightarrow>
                  (case get_targets P s of
                     [] \<Rightarrow> Inr \<lparr>avg_income = avg_inc, avg_expense = avg_exp, shown = None\<rparr>
                   | t0 # _ \<Rightarrow>
                       (case project A avg_inc avg_exp
                               (fsub A (amount_total A inc_df) (amount_total A exp_df))
                               reduction t0 of
                          Inl e \<Rightarrow> Inl e
                        | Inr p \<Rightarrow> Inr \<lparr>avg_income = avg_inc, avg_expense = avg_exp, shown = Some p\<rparr>))))"

text \<open>A sample of the parameter \<open>P\<close>: the reading of the \<open>YYYY-MM-DD\<close> strings that \<open>to_iso\<close> writes.\<close>

definition digit_val :: "char \<Rightarrow> nat option" where
  "digit_val c = (let n = (of_char c :: nat) in if 48 \<le> n \<and> n \<le> 57 then Some (n - 48) else None)"

fun digits_val :: "string \<Rightarrow> nat \<Rightarrow> nat option" where
  "digits_val [] acc = Some acc"
| "digits_val (c # cs) acc =
     (case digit_val c of None \<Rightarrow> None | Some v \<Rightarrow> digits_val cs (10 * acc + v))"

fun parse_iso :: "string \<Rightarrow> date option" where
  "parse_iso [y1, y2, y3, y4, s1, m1, m2, s2, d1, d2] =
     (if s1 = CHR ''-'' \<and> s2 = CHR ''-'' then
        (case (digits_val [y1, y2, y3, y4] 0, digits_val [m1, m2] 0, digits_val [d1, d2] 0) of
           (Some y, Some m, Some d) \<Rightarrow>
             (if 1 \<le> m \<and> m \<le> 12 \<and> 1 \<le> d \<and> d \<le> 31 then Some \<lparr>year = y, month = m, day = d\<rparr>
              else None)
         | _ \<Rightarrow> None)
      else None)"
| "parse_iso _ = None"

subsection \<open>Notions used to state the properties\<close>

text \<open>The exact sum of the amounts of a list of records.\<close>

definition amount_sum :: "('d, 'a) entry_scheme list \<Rightarrow> real" where
  "amount_sum rs = sum_list (map amount rs)"

text \<open>The month bucket of a stored record: \<open>None\<close> when its date does not parse.\<close>

definition month_of :: "(string \<Rightarrow> date option) \<Rightarrow> (string, 'a) entry_scheme \<Rightarrow> string option" where
  "month_of P r = map_option strftime_ym (P (the_date r))"

definition bucket :: "(string \<Rightarrow> date option) \<Rightarrow> string \<Rightarrow> (string, 'a) entry_scheme list
    \<Rightarrow> (string, 'a) entry_scheme list" where
  "bucket P m rs = filter (\<lambda>r. month_of P r = Some m) rs"

definition summary_of :: "real \<Rightarrow> real \<Rightarrow> summary" where
  "summary_of i e = \<lparr>income = i, expense = e, saved = i - e,
                     saving_rate = (if i > 0 then (i - e) / i * 100 else 0)\<rparr>"

definition clamp :: "real \<Rightarrow> real \<Rightarrow> real \<Rightarrow> real" where
  "clamp x lo hi = (if x < lo then lo else if hi < x then hi else x)"

definition mean :: "('d, 'a) entry_scheme list \<Rightarrow> real" where
  "mean rs = (if rs = [] then 0 else amount_sum rs / real (length rs))"


subsection \<open>Sample databases\<close>

definition scen_jan :: db where
  "scen_jan = add_expense 400000 ''Makan'' '''' (DateObj \<lparr>year = 2024, month = 1, day = 15\<rparr>)
                (add_income 1000000 ''Gaji'' (DateObj \<lparr>year = 2024, month = 1, day = 10\<rparr>) init_db)"

definition scen_overspent :: db where
  "scen_overspent = add_expense 150 ''Belanja'' '''' (DateObj \<lparr>year = 2024, month = 3, day = 2\<rparr>)
                (add_income 100 ''Gaji'' (DateObj \<lparr>year = 2024, month = 3, day = 1\<rparr>) init_db)"

definition scen_no_income :: db where
  "scen_no_income = add_target ''Laptop'' 5000000 (DateObj \<lparr>year = 2025, month = 1, day = 1\<rparr>) ''2024-01-20T08:30:00''
      (add_expense 150 ''Belanja'' '''' (DateObj \<lparr>year = 2024, month = 3, day = 2\<rparr>) init_db)"


subsection \<open>Sequences of form submissions\<close>

text \<open>A submitted entry form, and a session of submissions run through the two handlers.\<close>

datatype submission = IncomeForm real string date | ExpenseForm real string string date

fun submit :: "submission \<Rightarrow> db \<Rightarrow> db \<times> message" where
  "submit (IncomeForm a src d) s = submit_income a src d s"
| "submit (ExpenseForm a cat desc d) s = submit_expense a cat desc d s"

fun submit_all :: "submission list \<Rightarrow> db \<Rightarrow> db" where
  "submit_all [] s = s"
| "submit_all (f # fs) s = submit_all fs (fst (submit f s))"

fun income_amounts :: "submission list \<Rightarrow> real list" where
  "income_amounts [] = []"
| "income_amounts (IncomeForm a src d # fs) = a # income_amounts fs"
| "income_amounts (ExpenseForm a cat desc d # fs) = income_amounts fs"

fun expense_amounts :: "submission list \<Rightarrow> real list" where
  "expense_amounts [] = []"
| "expense_amounts (IncomeForm a src d # fs) = expense_amounts fs"
| "expense_amounts (ExpenseForm a cat desc d # fs) = a # expense_amounts fs"

subsection \<open>More sample data\<close>

definition sample_forms :: "submission list" where
  "sample_forms = [IncomeForm 0 ''Gaji'' \<lparr>year = 2024, month = 1, day = 10\<rparr>,
                   IncomeForm 250 ''Bonus'' \<lparr>year = 2024, month = 1, day = 11\<rparr>,
                   ExpenseForm 0 ''Makan'' '''' \<lparr>year = 2024, month = 1, day = 12\<rparr>,
                   ExpenseForm 75 ''Transport'' ''bus'' \<lparr>year = 2024, month = 1, day = 13\<rparr>]"



definition laptop :: "date option target_row" where
  "laptop = \<lparr>row_id = 1, target_name = ''Laptop'', target_amount = 100000,
            target_date = Some \<lparr>year = 2025, month = 1, day = 1\<rparr>, created_at = ''2024-01-20T08:30:00''\<rparr>"

definition nol :: "date option target_row" where
  "nol = \<lparr>row_id = 2, target_name = ''Nol'', target_amount = 0,
            target_date = Some \<lparr>year = 2025, month = 6, day = 1\<rparr>, created_at = ''2024-02-01T09:00:00''\<rparr>"

subsection \<open>Sequences of storage operations\<close>

datatype coll = Incomes | Expenses | Targets

text \<open>
  An operation on the store: one of the three \<open>add_*\<close> functions, or a click on the delete
  button of a collection with an id typed in.
\<close>

datatype op =
    AddIncome real string date_arg
  | AddExpense real string string date_arg
  | AddTarget string real date_arg string
  | DeleteClicked coll nat

fun apply_op :: "op \<Rightarrow> db \<Rightarrow> db" where
  "apply_op (AddIncome a src d) s = add_income a src d s"
| "apply_op (AddExpense a cat desc d) s = add_expense a cat desc d s"
| "apply_op (AddTarget nm a d now) s = add_target nm a d now s"
| "apply_op (DeleteClicked Incomes i) s = fst (delete_income_clicked i s)"
| "apply_op (DeleteClicked Expenses i) s = fst (delete_expense_clicked i s)"
| "apply_op (DeleteClicked Targets i) s = fst (delete_target_clicked i s)"

fun response :: "op \<Rightarrow> db \<Rightarrow> message option" where
  "response (DeleteClicked Incomes i) s = snd (delete_income_clicked i s)"
| "response (DeleteClicked Expenses i) s = snd (delete_expense_clicked i s)"
| "response (DeleteClicked Targets i) s = snd (delete_target_clicked i s)"
| "response _ s = None"

fun run :: "op list \<Rightarrow> db \<Rightarrow> db" where
  "run [] s = s"
| "run (x # xs) s = run xs (apply_op x s)"

text \<open>The ids that a full listing of a collection returns.\<close>

fun list_all_ids :: "(string \<Rightarrow> date option) \<Rightarrow> coll \<Rightarrow> db \<Rightarrow> nat list" where
  "list_all_ids P Incomes s = map row_id (get_all_incomes P s)"
| "list_all_ids P Expenses s = map row_id (get_all_expenses P s)"
| "list_all_ids P Targets s = map row_id (get_targets P s)"

fun adds_to :: "coll \<Rightarrow> op \<Rightarrow> bool" where
  "adds_to Incomes (AddIncome a src d) = True"
| "adds_to Expenses (AddExpense a cat desc d) = True"
| "adds_to Targets (AddTarget nm a d now) = True"
| "adds_to c x = False"

fun next_id_in :: "coll \<Rightarrow> db \<Rightarrow> nat" where
  "next_id_in Incomes s = next_id (incomes s)"
| "next_id_in Expenses s = next_id (expenses s)"
| "next_id_in Targets s = next_id (targets s)"

text \<open>The ids the adds of a run assign in collection \<open>c\<close>, and the ids its deletes are given.\<close>

fun assigned_ids :: "coll \<Rightarrow> op list \<Rightarrow> db \<Rightarrow> nat list" where
  "assigned_ids c [] s = []"
| "assigned_ids c (x # xs) s =
     (if adds_to c x then [next_id_in c s] else []) @ assigned_ids c xs (apply_op x s)"

fun deleted_ids :: "coll \<Rightarrow> op list \<Rightarrow> nat list" where
  "deleted_ids c [] = []"
| "deleted_ids c (DeleteClicked c' i # xs) = (if c' = c then [i] else []) @ deleted_ids c xs"
| "deleted_ids c (x # xs) = deleted_ids c xs"

text \<open>The ids assigned by an add of the run and not given to a delete that comes later in it.\<close>

fun surviving_ids :: "coll \<Rightarrow> op list \<Rightarrow> db \<Rightarrow> nat list" where
  "surviving_ids c [] s = []"
| "surviving_ids c (x # xs) s =
     (if adds_to c x \<and> next_id_in c s \<notin> set (deleted_ids c xs) then [next_id_in c s] else [])
       @ surviving_ids c xs (apply_op x s)"

text \<open>The ids stored in a collection.\<close>

fun coll_ids :: "coll \<Rightarrow> db \<Rightarrow> nat set" where
  "coll_ids Incomes s = row_id ` set (tbl_rows (incomes s))"
| "coll_ids Expenses s = row_id ` set (tbl_rows (expenses s))"
| "coll_ids Targets s = row_id ` set (tbl_rows (targets s))"

definition ops_delete_first :: "op list" where
  "ops_delete_first =
     [AddIncome 100 ''Gaji'' (DateObj \<lparr>year = 2024, month = 1, day = 10\<rparr>),
      DeleteClicked Incomes 2,
      AddIncome 50 ''Bonus'' (DateObj \<lparr>year = 2024, month = 1, day = 11\<rparr>)]"

definition ops_delete_after :: "op list" where
  "ops_delete_after =
     [AddIncome 100 ''Gaji'' (DateObj \<lparr>year = 2024, month = 1, day = 10\<rparr>),
      AddIncome 50 ''Bonus'' (DateObj \<lparr>year = 2024, month = 1, day = 11\<rparr>),
      DeleteClicked Incomes 1,
      AddIncome 70 ''Bonus'' (DateObj \<lparr>year = 2024, month = 2, day = 11\<rparr>)]"

text \<open>Dates whose year prints with four digits, and the order of their months.\<close>

definition calendar_date :: "date \<Rightarrow> bool" where
  "calendar_date d = (1 \<le> year d \<and> year d \<le> 9999 \<and> 1 \<le> month d \<and> month d \<le> 12)"

definition earlier_month :: "date \<Rightarrow> date \<Rightarrow> bool" where
  "earlier_month a b = (year a < year b \<or> (year a = year b \<and> month a < month b))"

definition scen_two_months :: db where
  "scen_two_months =
     add_income 500 ''Bonus'' (Other ''entah'')
       (add_expense 300 ''Makan'' '''' (DateObj \<lparr>year = 2024, month = 2, day = 3\<rparr>)
          (add_expense 400000 ''Makan'' '''' (DateObj \<lparr>year = 2024, month = 1, day = 15\<rparr>)
             (add_income 1000000 ''Gaji'' (DateObj \<lparr>year = 2024, month = 1, day = 10\<rparr>) init_db)))"

text \<open>The months in which some income or expense record with a parseable date falls.\<close>

definition months_present :: "(string \<Rightarrow> date option) \<Rightarrow> db \<Rightarrow> string set" where
  "months_present P s =
     {k. (\<exists>r\<in>set (tbl_rows (incomes s)). month_of P r = Some k)
       \<or> (\<exists>r\<in>set (tbl_rows (expenses s)). month_of P r = Some k)}"

text \<open>The parsed dates of the stored income and expense records.\<close>

definition parsed_dates :: "(string \<Rightarrow> date option) \<Rightarrow> db \<Rightarrow> date set" where
  "parsed_dates P s =
     {d. (\<exists>r\<in>set (tbl_rows (incomes s)). P (the_date r) = Some d)
       \<or> (\<exists>r\<in>set (tbl_rows (expenses s)). P (the_date r) = Some d)}"

definition rate_of :: "(string \<Rightarrow> date option) \<Rightarrow> db \<Rightarrow> string \<Rightarrow> real" where
  "rate_of P s m =
     saving_rate (summary_of (amount_sum (bucket P m (tbl_rows (incomes s))))
                             (amount_sum (bucket P m (tbl_rows (expenses s)))))"

text \<open>The saving rate that \<open>monthly_summary\<close> computes for a month.\<close>

definition month_rate :: "arith \<Rightarrow> (string \<Rightarrow> date option) \<Rightarrow> db \<Rightarrow> string \<Rightarrow> real" where
  "month_rate A P s m =
     (case monthly_summary A P s (Some m) of Inl e \<Rightarrow> 0 | Inr r \<Rightarrow> saving_rate r)"

text \<open>The database without the records whose date does not parse.\<close>

definition drop_unparseable :: "(string \<Rightarrow> date option) \<Rightarrow> db \<Rightarrow> db" where
  "drop_unparseable P s =
     s\<lparr>incomes := (incomes s)\<lparr>tbl_rows := filter (\<lambda>r. P (the_date r) \<noteq> None) (tbl_rows (incomes s))\<rparr>,
       expenses := (expenses s)\<lparr>tbl_rows := filter (\<lambda>r. P (the_date r) \<noteq> None) (tbl_rows (expenses s))\<rparr>\<rparr>"

definition scen_streak :: db where
  "scen_streak =
     add_expense 50 ''Makan'' '''' (DateObj \<lparr>year = 2024, month = 3, day = 20\<rparr>)
    (add_income 100 ''Gaji'' (DateObj \<lparr>year = 2024, month = 3, day = 1\<rparr>)
    (add_expense 80 ''Makan'' '''' (DateObj \<lparr>year = 2024, month = 2, day = 20\<rparr>)
    (add_income 100 ''Gaji'' (DateObj \<lparr>year = 2024, month = 2, day = 1\<rparr>)
    (add_expense 95 ''Makan'' '''' (DateObj \<lparr>year = 2024, month = 1, day = 20\<rparr>)
    (add_income 100 ''Gaji'' (DateObj \<lparr>year = 2024, month = 1, day = 1\<rparr>) init_db)))))"

definition scen_two_months_parsed :: db where
  "scen_two_months_parsed =
     \<lparr>incomes = \<lparr>tbl_rows = [\<lparr>row_id = 1, amount = 1000000, the_date = ''2024-01-10'', source = ''Gaji''\<rparr>],
                 tbl_seq = 2\<rparr>,
      expenses = \<lparr>tbl_rows = [\<lparr>row_id = 1, amount = 400000, the_date = ''2024-01-15'',
                                 category = ''Makan'', description = ''''\<rparr>,
                               \<lparr>row_id = 2, amount = 300, the_date = ''2024-02-03'',
                                 category = ''Makan'', description = ''''\<rparr>],
                  tbl_seq = 2\<rparr>,
      targets = \<lparr>tbl_rows = [], tbl_seq = 0\<rparr>\<rparr>"

section \<open>Properties\<close>

subsection \<open>Exact arithmetic\<close>

lemma exact_ops [simp]:
  "series_sum exact = sum_list" "group_sum exact = sum_list"
  "fsub exact a b = a - b" "fmul exact a b = a * b" "fdiv exact a b = a / b"
  by (simp_all add: exact_def)

lemma amount_total_exact [simp]: "amount_total exact df = amount_sum df"
  by (simp add: amount_total_def amount_sum_def)

subsection \<open>Evaluation and order-independence of the sums\<close>

lemma digit_small: "k < 10 \<Longrightarrow> digit k = ''0123456789'' ! k"
proof -
  assume "k < 10"
  then have "k \<in> {0,1,2,3,4,5,6,7,8,9}" by auto
  then show ?thesis by (auto simp: digit_def; code_simp)
qed

lemma digit_nth: "digit n = ''0123456789'' ! (n mod 10)"
proof -
  have "digit n = digit (n mod 10)" by (simp add: digit_def)
  then show ?thesis using digit_small[of "n mod 10"] by simp
qed

lemma amount_sum_order_by_desc: "amount_sum (order_by_desc k rs) = amount_sum rs"
proof -
  have "mset (map amount (sort_key k (rev rs))) = mset (map amount rs)" by simp
  then have "sum_list (map amount (sort_key k (rev rs))) = sum_list (map amount rs)"
    by (metis sum_mset_sum_list)
  then show ?thesis
    by (simp add: amount_sum_def order_by_desc_def rev_map[symmetric] sum_list_rev del: rev_map)
qed

lemma filter_order_by_desc: "filter Q (order_by_desc k rs) = order_by_desc k (filter Q rs)"
  by (simp add: order_by_desc_def filter_sort flip: rev_filter)

lemma order_by_desc_Nil_iff: "order_by_desc k rs = [] \<longleftrightarrow> rs = []"
proof -
  have "length (order_by_desc k rs) = length rs" by (simp add: order_by_desc_def)
  then show ?thesis by (metis length_0_conv)
qed

lemma set_order_by_desc: "set (order_by_desc k rs) = set rs"
  by (simp add: order_by_desc_def)

lemma amount_sum_income_df: "amount_sum (map (income_df P) rs) = amount_sum rs"
  by (simp add: amount_sum_def income_df_def comp_def)

lemma amount_sum_expense_df: "amount_sum (map (expense_df P) rs) = amount_sum rs"
  by (simp add: amount_sum_def expense_df_def comp_def)

lemma in_month_income_df: "in_month m (income_df P r) \<longleftrightarrow> month_of P r = Some m"
  by (auto simp: in_month_def income_df_def month_of_def split: option.splits)

lemma in_month_expense_df: "in_month m (expense_df P r) \<longleftrightarrow> month_of P r = Some m"
  by (auto simp: in_month_def expense_df_def month_of_def split: option.splits)

lemma amount_sum_get_all_incomes: "amount_sum (get_all_incomes P s) = amount_sum (tbl_rows (incomes s))"
  by (simp add: get_all_incomes_def amount_sum_income_df amount_sum_order_by_desc)

lemma amount_sum_get_all_expenses: "amount_sum (get_all_expenses P s) = amount_sum (tbl_rows (expenses s))"
  by (simp add: get_all_expenses_def amount_sum_expense_df amount_sum_order_by_desc)

lemma month_incomes:
  "amount_sum (filter (in_month m) (get_all_incomes P s)) = amount_sum (bucket P m (tbl_rows (incomes s)))"
  by (simp add: get_all_incomes_def filter_map comp_def in_month_income_df amount_sum_income_df
      filter_order_by_desc amount_sum_order_by_desc bucket_def)

lemma month_expenses:
  "amount_sum (filter (in_month m) (get_all_expenses P s)) = amount_sum (bucket P m (tbl_rows (expenses s)))"
  by (simp add: get_all_expenses_def filter_map comp_def in_month_expense_df amount_sum_expense_df
      filter_order_by_desc amount_sum_order_by_desc bucket_def)

lemma amount_sum_Nil: "amount_sum [] = 0"
  by (simp add: amount_sum_def)

lemma summarise_eq: "summarise exact incs exps = Inr (summary_of (amount_sum incs) (amount_sum exps))"
  by (simp add: summarise_def summary_of_def truediv_def amount_sum_Nil Let_def)

lemma monthly_summary_all:
  "\<not> truthy my \<Longrightarrow> monthly_summary exact P s my =
     Inr (summary_of (amount_sum (tbl_rows (incomes s))) (amount_sum (tbl_rows (expenses s))))"
  by (simp add: monthly_summary_def summarise_eq amount_sum_get_all_incomes amount_sum_get_all_expenses)

lemma monthly_summary_month:
  "m \<noteq> [] \<Longrightarrow> monthly_summary exact P s (Some m) =
     Inr (summary_of (amount_sum (bucket P m (tbl_rows (incomes s))))
                     (amount_sum (bucket P m (tbl_rows (expenses s)))))"
  by (simp add: monthly_summary_def summarise_eq month_incomes month_expenses)

lemmas table_eval = add_income_def add_expense_def add_target_def init_db_def empty_table_def insert_row_def
  next_id_def isoformat_def fmt4_def fmt2_def digit_nth

lemmas bucket_eval = bucket_def month_of_def strftime_ym_def digit_val_def amount_sum_def

text \<open>
  C4. \<open>monthly_summary\<close> never raises. Without a month (or with the empty string, which
  Python's \<open>if month_year:\<close> treats like no month) it totals every stored record; with a
  month \<open>m\<close> it totals the records whose date parses into bucket \<open>m\<close>. In both cases
  \<open>saved = income - expense\<close> and \<open>saving_rate = saved / income * 100\<close> when the income total
  is positive, else 0. A month without records gives all zeros.
\<close>

theorem monthly_summary_correct:
  "(let i = amount_sum (tbl_rows (incomes s)); e = amount_sum (tbl_rows (expenses s))
    in monthly_summary exact P s None =
         Inr \<lparr>income = i, expense = e, saved = i - e,
              saving_rate = (if i > 0 then (i - e) / i * 100 else 0)\<rparr>)
   \<and> monthly_summary exact P s (Some []) = monthly_summary exact P s None
   \<and> (m \<noteq> [] \<longrightarrow>
       (let i = amount_sum (bucket P m (tbl_rows (incomes s)));
            e = amount_sum (bucket P m (tbl_rows (expenses s)))
        in monthly_summary exact P s (Some m) =
             Inr \<lparr>income = i, expense = e, saved = i - e,
                  saving_rate = (if i > 0 then (i - e) / i * 100 else 0)\<rparr>))
   \<and> (m \<noteq> [] \<and> bucket P m (tbl_rows (incomes s)) = [] \<and> bucket P m (tbl_rows (expenses s)) = [] \<longrightarrow>
        monthly_summary exact P s (Some m) = Inr \<lparr>income = 0, expense = 0, saved = 0, saving_rate = 0\<rparr>)"
proof -
  have a: "monthly_summary exact P s None =
     Inr (summary_of (amount_sum (tbl_rows (incomes s))) (amount_sum (tbl_rows (expenses s))))"
    by (simp add: monthly_summary_all)
  have b: "monthly_summary exact P s (Some []) = monthly_summary exact P s None"
    by (simp add: monthly_summary_all)
  have c: "m \<noteq> [] \<Longrightarrow> monthly_summary exact P s (Some m) =
          Inr (summary_of (amount_sum (bucket P m (tbl_rows (incomes s))))
                          (amount_sum (bucket P m (tbl_rows (expenses s)))))"
    by (simp add: monthly_summary_month)
  have d: "m \<noteq> [] \<and> bucket P m (tbl_rows (incomes s)) = [] \<and> bucket P m (tbl_rows (expenses s)) = [] \<longrightarrow>
        monthly_summary exact P s (Some m) = Inr \<lparr>income = 0, expense = 0, saved = 0, saving_rate = 0\<rparr>"
    by (simp add: monthly_summary_month amount_sum_Nil summary_of_def)
  show ?thesis
    unfolding Let_def using a b c d by (simp add: summary_of_def)
qed

theorem monthly_summary_correct_witness:
  "''2024-01'' \<noteq> [] \<and>
   monthly_summary exact parse_iso scen_jan (Some ''2024-01'') =
     Inr \<lparr>income = 1000000, expense = 400000, saved = 600000, saving_rate = 60\<rparr> \<and>
   ''2024-02'' \<noteq> [] \<and>
   bucket parse_iso ''2024-02'' (tbl_rows (incomes scen_jan)) = [] \<and>
   bucket parse_iso ''2024-02'' (tbl_rows (expenses scen_jan)) = [] \<and>
   monthly_summary exact parse_iso scen_jan (Some ''2024-02'') =
     Inr \<lparr>income = 0, expense = 0, saved = 0, saving_rate = 0\<rparr>"
proof -
  have i: "amount_sum (bucket parse_iso ''2024-01'' (tbl_rows (incomes scen_jan))) = 1000000"
    by (simp add: scen_jan_def table_eval bucket_eval)
  have e: "amount_sum (bucket parse_iso ''2024-01'' (tbl_rows (expenses scen_jan))) = 400000"
    by (simp add: scen_jan_def table_eval bucket_eval)
  have i2: "bucket parse_iso ''2024-02'' (tbl_rows (incomes scen_jan)) = []"
    by (simp add: scen_jan_def table_eval bucket_eval)
  have e2: "bucket parse_iso ''2024-02'' (tbl_rows (expenses scen_jan)) = []"
    by (simp add: scen_jan_def table_eval bucket_eval)
  have jan: "monthly_summary exact parse_iso scen_jan (Some ''2024-01'') =
     Inr \<lparr>income = 1000000, expense = 400000, saved = 600000, saving_rate = 60\<rparr>"
    using monthly_summary_correct [of scen_jan parse_iso "''2024-01''"]
    by (auto simp: i e Let_def)
  have feb: "monthly_summary exact parse_iso scen_jan (Some ''2024-02'') =
     Inr \<lparr>income = 0, expense = 0, saved = 0, saving_rate = 0\<rparr>"
    using monthly_summary_correct [of scen_jan parse_iso "''2024-02''"] i2 e2
    by blast
  from jan feb i2 e2 show ?thesis by simp
qed

text \<open>
  C5. When the income total is positive and the expense total is larger, the saving rate
  returned is the negative value \<open>(income - expense) / income * 100\<close>, not clamped; when
  the income total is 0 the saving rate is 0 and nothing is raised. Both hold for the full
  collections and for every month bucket.
\<close>

theorem saving_rate_not_clamped:
  "(let i = amount_sum (tbl_rows (incomes s)); e = amount_sum (tbl_rows (expenses s))
    in (0 < i \<and> i < e \<longrightarrow>
          (\<exists>r. monthly_summary exact P s None = Inr r \<and> saving_rate r = (i - e) / i * 100 \<and> saving_rate r < 0))
     \<and> (i = 0 \<longrightarrow> (\<exists>r. monthly_summary exact P s None = Inr r \<and> saving_rate r = 0)))
   \<and> (m \<noteq> [] \<longrightarrow>
       (let i = amount_sum (bucket P m (tbl_rows (incomes s)));
            e = amount_sum (bucket P m (tbl_rows (expenses s)))
        in (0 < i \<and> i < e \<longrightarrow>
              (\<exists>r. monthly_summary exact P s (Some m) = Inr r \<and> saving_rate r = (i - e) / i * 100
                   \<and> saving_rate r < 0))
         \<and> (i = 0 \<longrightarrow> (\<exists>r. monthly_summary exact P s (Some m) = Inr r \<and> saving_rate r = 0))))"
proof -
  have neg: "0 < i \<Longrightarrow> i < e \<Longrightarrow> (i - e) / i * 100 < 0" for i e :: real
    by (simp add: divide_neg_pos)
  show ?thesis
    unfolding Let_def
    by (auto simp: monthly_summary_all monthly_summary_month summary_of_def divide_neg_pos)
qed

theorem saving_rate_not_clamped_witness:
  "0 < amount_sum (tbl_rows (incomes scen_overspent)) \<and>
   amount_sum (tbl_rows (incomes scen_overspent)) < amount_sum (tbl_rows (expenses scen_overspent)) \<and>
   (\<exists>r. monthly_summary exact parse_iso scen_overspent None = Inr r \<and> saving_rate r = - 50) \<and>
   amount_sum (tbl_rows (incomes scen_no_income)) = 0 \<and>
   (\<exists>r. monthly_summary exact parse_iso scen_no_income None = Inr r \<and> saving_rate r = 0) \<and>
   ''2024-03'' \<noteq> [] \<and>
   (\<exists>r. monthly_summary exact parse_iso scen_overspent (Some ''2024-03'') = Inr r \<and> saving_rate r = - 50) \<and>
   (\<exists>r. monthly_summary exact parse_iso scen_no_income (Some ''2024-03'') = Inr r \<and> saving_rate r = 0)"
proof -
  have i: "amount_sum (tbl_rows (incomes scen_overspent)) = 100"
    by (simp add: scen_overspent_def table_eval amount_sum_def)
  have e: "amount_sum (tbl_rows (expenses scen_overspent)) = 150"
    by (simp add: scen_overspent_def table_eval amount_sum_def)
  have bi: "amount_sum (bucket parse_iso ''2024-03'' (tbl_rows (incomes scen_overspent))) = 100"
    by (simp add: scen_overspent_def table_eval bucket_eval)
  have be: "amount_sum (bucket parse_iso ''2024-03'' (tbl_rows (expenses scen_overspent))) = 150"
    by (simp add: scen_overspent_def table_eval bucket_eval)
  have z: "amount_sum (tbl_rows (incomes scen_no_income)) = 0"
    by (simp add: scen_no_income_def table_eval amount_sum_def)
  have bz: "amount_sum (bucket parse_iso ''2024-03'' (tbl_rows (incomes scen_no_income))) = 0"
    by (simp add: scen_no_income_def table_eval bucket_eval)
  have a1: "\<exists>r. monthly_summary exact parse_iso scen_overspent None = Inr r \<and> saving_rate r = - 50"
    using saving_rate_not_clamped [of scen_overspent parse_iso "''2024-03''"] by (auto simp: i e Let_def)
  have a2: "\<exists>r. monthly_summary exact parse_iso scen_overspent (Some ''2024-03'') = Inr r \<and> saving_rate r = - 50"
    using saving_rate_not_clamped [of scen_overspent parse_iso "''2024-03''"] by (auto simp: bi be Let_def)
  have a3: "\<exists>r. monthly_summary exact parse_iso scen_no_income None = Inr r \<and> saving_rate r = 0"
    using saving_rate_not_clamped [of scen_no_income parse_iso "''2024-03''"] by (auto simp: z Let_def)
  have a4: "\<exists>r. monthly_summary exact parse_iso scen_no_income (Some ''2024-03'') = Inr r \<and> saving_rate r = 0"
    using saving_rate_not_clamped [of scen_no_income parse_iso "''2024-03''"] by (auto simp: bz Let_def)
  from a1 a2 a3 a4 show ?thesis by (simp add: i e z)
qed

subsection \<open>Lengths and division\<close>

lemma length_get_all_incomes: "length (get_all_incomes P s) = length (tbl_rows (incomes s))"
  by (simp add: get_all_incomes_def order_by_desc_def)

lemma length_get_all_expenses: "length (get_all_expenses P s) = length (tbl_rows (expenses s))"
  by (simp add: get_all_expenses_def order_by_desc_def)

lemma length_get_targets: "length (get_targets P s) = length (tbl_rows (targets s))"
  by (simp add: get_targets_def order_by_desc_def)

lemma truediv_ok: "b \<noteq> 0 \<Longrightarrow> truediv exact a b = Inr (a / b)"
  by (simp add: truediv_def)

subsection \<open>Target progress\<close>

lemma min_max_clamp: "min 100 (max 0 x) = clamp x 0 100"
  by (simp add: clamp_def min_def max_def)

text \<open>
  C3. \<open>compute_progress_against_target\<close> never raises. Its first component is the sum of
  all incomes minus the sum of all expenses, whatever their dates; its second component lies
  in \<open>[0, 100]\<close>, equals \<open>clamp (saved / target_amount * 100) 0 100\<close> when the target amount
  is positive, and is 0 when the target amount is 0.
\<close>

theorem progress_clamped:
  "(let sv = amount_sum (tbl_rows (incomes s)) - amount_sum (tbl_rows (expenses s))
    in \<exists>pct. compute_progress_against_target exact P s t = Inr (sv, pct)
          \<and> 0 \<le> pct \<and> pct \<le> 100
          \<and> (target_amount t > 0 \<longrightarrow> pct = clamp (sv / target_amount t * 100) 0 100)
          \<and> (target_amount t = 0 \<longrightarrow> pct = 0))"
proof (cases "target_amount t > 0")
  case True
  then show ?thesis
    unfolding Let_def
    by (simp add: compute_progress_against_target_def amount_sum_get_all_incomes
        amount_sum_get_all_expenses truediv_ok min_max_clamp, simp add: clamp_def)
next
  case False
  then show ?thesis
    unfolding Let_def
    by (simp add: compute_progress_against_target_def amount_sum_get_all_incomes
        amount_sum_get_all_expenses)
qed

theorem progress_clamped_witness:
  "target_amount laptop > 0 \<and>
   compute_progress_against_target exact parse_iso scen_jan laptop = Inr (600000, 100) \<and>
   target_amount nol = 0 \<and>
   compute_progress_against_target exact parse_iso scen_jan nol = Inr (600000, 0)"
proof -
  have sv: "amount_sum (tbl_rows (incomes scen_jan)) - amount_sum (tbl_rows (expenses scen_jan)) = 600000"
    by (simp add: scen_jan_def table_eval amount_sum_def)
  have a: "compute_progress_against_target exact parse_iso scen_jan laptop = Inr (600000, 100)"
    using progress_clamped [of scen_jan parse_iso laptop]
    by (auto simp: sv Let_def laptop_def clamp_def)
  have b: "compute_progress_against_target exact parse_iso scen_jan nol = Inr (600000, 0)"
    using progress_clamped [of scen_jan parse_iso nol]
    by (auto simp: sv Let_def nol_def)
  from a b show ?thesis by (simp add: laptop_def nol_def)
qed

subsection \<open>The simulation\<close>

lemma average_mean: "average exact rs = Inr (mean rs)"
proof (cases rs)
  case Nil
  then show ?thesis by (simp add: average_def mean_def)
next
  case (Cons x xs)
  then have "real (max 1 (length rs)) = real (length rs)" "real (max 1 (length rs)) \<noteq> 0" by simp_all
  with Cons show ?thesis by (simp add: average_def mean_def truediv_def)
qed

lemma mean_get_all_incomes: "mean (get_all_incomes P s) = mean (tbl_rows (incomes s))"
proof -
  have "get_all_incomes P s = [] \<longleftrightarrow> tbl_rows (incomes s) = []"
    using length_get_all_incomes[of P s] by (metis length_0_conv)
  then show ?thesis
    by (simp add: mean_def amount_sum_get_all_incomes length_get_all_incomes)
qed

lemma mean_get_all_expenses: "mean (get_all_expenses P s) = mean (tbl_rows (expenses s))"
proof -
  have "get_all_expenses P s = [] \<longleftrightarrow> tbl_rows (expenses s) = []"
    using length_get_all_expenses[of P s] by (metis length_0_conv)
  then show ?thesis
    by (simp add: mean_def amount_sum_get_all_expenses length_get_all_expenses)
qed

lemma project_eq:
  "project exact ai ae sv r t0 =
     Inr (if max 0 (ai - ae * (1 - real_of_int r / 100)) = 0 then Unreachable
          else Estimate (max 0 (ai - ae * (1 - real_of_int r / 100)))
                 (max 0 (target_amount t0 - sv) / max 0 (ai - ae * (1 - real_of_int r / 100))))"
proof (cases "ai - ae * (1 - real_of_int r / 100) > 0")
  case True
  then show ?thesis by (simp add: project_def Let_def truediv_def max_def)
next
  case False
  then show ?thesis by (simp add: project_def Let_def max_def)
qed

lemma simulate_eq:
  "simulate exact P r s =
     (case get_targets P s of
        [] \<Rightarrow> Inr \<lparr>avg_income = mean (tbl_rows (incomes s)), avg_expense = mean (tbl_rows (expenses s)),
                  shown = None\<rparr>
      | t0 # rest \<Rightarrow>
          Inr \<lparr>avg_income = mean (tbl_rows (incomes s)), avg_expense = mean (tbl_rows (expenses s)),
               shown = Some (if max 0 (mean (tbl_rows (incomes s))
                                      - mean (tbl_rows (expenses s)) * (1 - real_of_int r / 100)) = 0
                             then Unreachable
                             else Estimate
                               (max 0 (mean (tbl_rows (incomes s))
                                      - mean (tbl_rows (expenses s)) * (1 - real_of_int r / 100)))
                               (max 0 (target_amount t0 - (amount_sum (tbl_rows (incomes s))
                                                           - amount_sum (tbl_rows (expenses s))))
                                / max 0 (mean (tbl_rows (incomes s))
                                      - mean (tbl_rows (expenses s)) * (1 - real_of_int r / 100))))\<rparr>)"
  by (simp add: simulate_def Let_def average_mean mean_get_all_incomes mean_get_all_expenses project_eq
      amount_sum_get_all_incomes amount_sum_get_all_expenses split: list.splits)



text \<open>
  C10. With an empty target table the simulation shows the two averages and no projection:
  neither an estimate nor the "unreachable" verdict, for every reduction percentage and
  every content of the income and expense tables.
\<close>

theorem no_target_no_projection:
  "tbl_rows (targets s) = [] \<longrightarrow>
     simulate exact P r s = Inr \<lparr>avg_income = mean (tbl_rows (incomes s)),
                           avg_expense = mean (tbl_rows (expenses s)), shown = None\<rparr>"
proof
  assume "tbl_rows (targets s) = []"
  then have "get_targets P s = []" using length_get_targets[of P s] by simp
  then show "simulate exact P r s = Inr \<lparr>avg_income = mean (tbl_rows (incomes s)),
                           avg_expense = mean (tbl_rows (expenses s)), shown = None\<rparr>"
    by (simp add: simulate_eq)
qed



theorem no_target_no_projection_witness:
  "tbl_rows (targets scen_jan) = [] \<and>
   simulate exact parse_iso 10 scen_jan = Inr \<lparr>avg_income = 1000000, avg_expense = 400000, shown = None\<rparr>"
proof -
  have t: "tbl_rows (targets scen_jan) = []"
    by (simp add: scen_jan_def table_eval)
  have m: "mean (tbl_rows (incomes scen_jan)) = 1000000" "mean (tbl_rows (expenses scen_jan)) = 400000"
    by (simp_all add: scen_jan_def table_eval mean_def amount_sum_def)
  have "simulate exact parse_iso 10 scen_jan = Inr \<lparr>avg_income = 1000000, avg_expense = 400000, shown = None\<rparr>"
    using no_target_no_projection [of scen_jan parse_iso 10] t by (simp add: m)
  with t show ?thesis by simp
qed

subsection \<open>Entry forms\<close>

lemma incomes_add_income:
  "map amount (tbl_rows (incomes (add_income a src d s))) = map amount (tbl_rows (incomes s)) @ [a]"
  "map amount (tbl_rows (expenses (add_income a src d s))) = map amount (tbl_rows (expenses s))"
  by (simp_all add: add_income_def insert_row_def Let_def)

lemma expenses_add_expense:
  "map amount (tbl_rows (expenses (add_expense a cat desc d s))) = map amount (tbl_rows (expenses s)) @ [a]"
  "map amount (tbl_rows (incomes (add_expense a cat desc d s))) = map amount (tbl_rows (incomes s))"
  by (simp_all add: add_expense_def insert_row_def Let_def)

lemma submit_all_amounts:
  "map amount (tbl_rows (incomes (submit_all fs s)))
     = map amount (tbl_rows (incomes s)) @ filter (\<lambda>a. a > 0) (income_amounts fs)
   \<and> map amount (tbl_rows (expenses (submit_all fs s)))
     = map amount (tbl_rows (expenses s)) @ filter (\<lambda>a. a > 0) (expense_amounts fs)"
proof (induction fs arbitrary: s)
  case Nil
  then show ?case by simp
next
  case (Cons f fs)
  show ?case
  proof (cases f)
    case (IncomeForm a src d)
    then show ?thesis
      using Cons.IH[of "fst (submit_income a src d s)"]
      by (simp add: submit_income_def incomes_add_income)
  next
    case (ExpenseForm a cat desc d)
    then show ?thesis
      using Cons.IH[of "fst (submit_expense a cat desc d s)"]
      by (simp add: submit_expense_def expenses_add_expense)
  qed
qed

text \<open>
  C9. An income or expense form submitted with an amount \<open>\<le> 0\<close> leaves the database as it
  was and answers with an error message. After any session of submissions on a fresh
  database, the stored amounts are exactly the positive submitted amounts, in order; so
  every stored amount is positive.
\<close>

theorem nonpositive_amount_rejected:
  "(inc_amount \<le> 0 \<longrightarrow>
      submit_income inc_amount inc_source inc_date s = (s, Error ''Masukkan jumlah pemasukan > 0''))
   \<and> (exp_amount \<le> 0 \<longrightarrow>
      submit_expense exp_amount exp_category exp_desc exp_date s
        = (s, Error ''Masukkan jumlah pengeluaran > 0''))
   \<and> map amount (tbl_rows (incomes (submit_all fs init_db))) = filter (\<lambda>a. a > 0) (income_amounts fs)
   \<and> map amount (tbl_rows (expenses (submit_all fs init_db))) = filter (\<lambda>a. a > 0) (expense_amounts fs)
   \<and> (\<forall>x\<in>set (tbl_rows (incomes (submit_all fs init_db))). amount x > 0)
   \<and> (\<forall>x\<in>set (tbl_rows (expenses (submit_all fs init_db))). amount x > 0)"
proof -
  have a: "map amount (tbl_rows (incomes (submit_all fs init_db))) = filter (\<lambda>a. a > 0) (income_amounts fs)"
    using submit_all_amounts[of fs init_db] by (simp add: init_db_def empty_table_def)
  have b: "map amount (tbl_rows (expenses (submit_all fs init_db))) = filter (\<lambda>a. a > 0) (expense_amounts fs)"
    using submit_all_amounts[of fs init_db] by (simp add: init_db_def empty_table_def)
  have c: "\<forall>x\<in>set (tbl_rows (incomes (submit_all fs init_db))). amount x > 0"
  proof
    fix x assume "x \<in> set (tbl_rows (incomes (submit_all fs init_db)))"
    then have "amount x \<in> set (map amount (tbl_rows (incomes (submit_all fs init_db))))" by simp
    then show "amount x > 0" unfolding a by simp
  qed
  have d: "\<forall>x\<in>set (tbl_rows (expenses (submit_all fs init_db))). amount x > 0"
  proof
    fix x assume "x \<in> set (tbl_rows (expenses (submit_all fs init_db)))"
    then have "amount x \<in> set (map amount (tbl_rows (expenses (submit_all fs init_db))))" by simp
    then show "amount x > 0" unfolding b by simp
  qed
  show ?thesis using a b c d by (simp add: submit_income_def submit_expense_def)
qed

theorem nonpositive_amount_rejected_witness:
  "(0::real) \<le> 0 \<and>
   submit_income 0 ''Gaji'' \<lparr>year = 2024, month = 1, day = 10\<rparr> scen_jan
     = (scen_jan, Error ''Masukkan jumlah pemasukan > 0'') \<and>
   submit_expense 0 ''Makan'' '''' \<lparr>year = 2024, month = 1, day = 12\<rparr> scen_jan
     = (scen_jan, Error ''Masukkan jumlah pengeluaran > 0'') \<and>
   map amount (tbl_rows (incomes (submit_all sample_forms init_db))) = [250] \<and>
   map amount (tbl_rows (expenses (submit_all sample_forms init_db))) = [75] \<and>
   tbl_rows (incomes (submit_all sample_forms init_db)) \<noteq> []"
proof -
  note T = nonpositive_amount_rejected [of 0 "''Gaji''" "\<lparr>year = 2024, month = 1, day = 10\<rparr>" scen_jan
      0 "''Makan''" "''''" "\<lparr>year = 2024, month = 1, day = 12\<rparr>" sample_forms]
  have i: "filter (\<lambda>a. a > 0) (income_amounts sample_forms) = [250]"
    by (simp add: sample_forms_def)
  have e: "filter (\<lambda>a. a > 0) (expense_amounts sample_forms) = [75]"
    by (simp add: sample_forms_def)
  have ne: "tbl_rows (incomes (submit_all sample_forms init_db)) \<noteq> []"
    using T i by auto
  show ?thesis using T ne by (simp add: i e)
qed

subsection \<open>Ids under adds and deletes\<close>

lemma set_list_all_ids: "set (list_all_ids P c s) = coll_ids c s"
  by (cases c)
     (auto simp: get_all_incomes_def get_all_expenses_def get_targets_def set_order_by_desc
        income_df_def expense_df_def target_df_def image_iff)

lemma next_id_pos: "0 < next_id t"
  by (simp add: next_id_def)

lemma ids_insert_row:
  "(\<And>i. row_id (mk i) = i) \<Longrightarrow>
     row_id ` set (tbl_rows (insert_row mk t)) = insert (next_id t) (row_id ` set (tbl_rows t))"
  by (simp add: insert_row_def Let_def)

lemma ids_delete_row:
  "row_id ` set (tbl_rows (delete_row i t)) = row_id ` set (tbl_rows t) - {i}"
  by (auto simp: delete_row_def)

lemma delete_row_absent:
  "i \<notin> row_id ` set (tbl_rows t) \<Longrightarrow> delete_row i t = t"
proof -
  assume "i \<notin> row_id ` set (tbl_rows t)"
  then have "filter (\<lambda>r. row_id r \<noteq> i) (tbl_rows t) = tbl_rows t"
    by (intro filter_True) auto
  then show ?thesis by (simp add: delete_row_def)
qed

lemma coll_ids_add:
  "adds_to c x \<Longrightarrow> coll_ids c (apply_op x s) = insert (next_id_in c s) (coll_ids c s)"
  by (cases c; cases x)
     (simp_all add: add_income_def add_expense_def add_target_def ids_insert_row)

lemma coll_ids_other:
  "\<not> adds_to c x \<Longrightarrow> \<forall>i. x \<noteq> DeleteClicked c i \<Longrightarrow> coll_ids c (apply_op x s) = coll_ids c s"
proof (cases x)
  case (DeleteClicked c' i)
  assume "\<forall>i. x \<noteq> DeleteClicked c i"
  with DeleteClicked have "c' \<noteq> c" by auto
  with DeleteClicked show ?thesis
    by (cases c; cases c')
       (simp_all add: delete_income_clicked_def delete_expense_clicked_def delete_target_clicked_def
          delete_target_def)
qed (cases c; simp add: add_income_def add_expense_def add_target_def)+

lemma coll_ids_delete:
  "0 \<notin> coll_ids c s \<Longrightarrow> coll_ids c (apply_op (DeleteClicked c i) s) = coll_ids c s - {i}"
  by (cases c)
     (auto simp: delete_income_clicked_def delete_expense_clicked_def delete_target_clicked_def
        delete_target_def ids_delete_row)

lemma zero_not_id_apply_op:
  "0 \<notin> coll_ids c s \<Longrightarrow> 0 \<notin> coll_ids c (apply_op x s)"
proof (cases "adds_to c x")
  case True
  assume "0 \<notin> coll_ids c s"
  moreover have "next_id_in c s \<noteq> 0" by (cases c) (simp_all add: next_id_def)
  ultimately show ?thesis using True by (simp add: coll_ids_add)
next
  case False
  assume z: "0 \<notin> coll_ids c s"
  show ?thesis
  proof (cases "\<exists>i. x = DeleteClicked c i")
    case True
    with z show ?thesis by (auto simp: coll_ids_delete)
  next
    case False
    with \<open>\<not> adds_to c x\<close> z show ?thesis by (simp add: coll_ids_other)
  qed
qed

lemma deleted_ids_Cons:
  "set (deleted_ids c (x # xs)) = (case x of DeleteClicked c' i \<Rightarrow> (if c' = c then {i} else {}) | _ \<Rightarrow> {})
      \<union> set (deleted_ids c xs)"
  by (cases x) auto

lemma run_ids:
  "0 \<notin> coll_ids c s \<Longrightarrow>
   coll_ids c (run xs s) = (coll_ids c s - set (deleted_ids c xs)) \<union> set (surviving_ids c xs s)"
proof (induction xs arbitrary: s)
  case Nil
  then show ?case by simp
next
  case (Cons x xs)
  have z': "0 \<notin> coll_ids c (apply_op x s)" using Cons.prems by (rule zero_not_id_apply_op)
  note IH = Cons.IH[OF z']
  show ?case
  proof (cases "adds_to c x")
    case True
    then have nd: "set (deleted_ids c (x # xs)) = set (deleted_ids c xs)"
      by (cases c; cases x) simp_all
    from True IH show ?thesis
      by (auto simp: coll_ids_add nd simp del: deleted_ids.simps)
  next
    case False
    show ?thesis
    proof (cases "\<exists>i. x = DeleteClicked c i")
      case True
      then obtain i where x: "x = DeleteClicked c i" by blast
      have "coll_ids c (apply_op x s) = coll_ids c s - {i}"
        using Cons.prems x by (simp add: coll_ids_delete)
      with IH x show ?thesis by auto
    next
      case nodel: False
      then have nd: "set (deleted_ids c (x # xs)) = set (deleted_ids c xs)"
        by (cases x) auto
      have "coll_ids c (apply_op x s) = coll_ids c s"
        using False nodel by (simp add: coll_ids_other)
      with IH False show ?thesis by (simp add: nd del: deleted_ids.simps)
    qed
  qed
qed

lemma delete_absent_noop:
  "i \<notin> coll_ids c s \<Longrightarrow> apply_op (DeleteClicked c i) s = s"
  by (cases c)
     (simp_all add: delete_income_clicked_def delete_expense_clicked_def delete_target_clicked_def
        delete_target_def delete_row_absent)

lemma delete_response: "response (DeleteClicked c i) s \<noteq> Some (Error e)"
  by (cases c)
     (simp_all add: delete_income_clicked_def delete_expense_clicked_def delete_target_clicked_def)

text \<open>
  C8 (as amended). After any run of adds and delete clicks on a fresh database, the ids a
  full listing of a collection returns are exactly the ids assigned by the adds of the run
  that are not given to a delete coming later in the run. A delete click with an id that is
  not in the collection leaves the database unchanged and answers with no error.
\<close>

theorem ids_after_run:
  "set (list_all_ids P c (run xs init_db)) = set (surviving_ids c xs init_db)
   \<and> (i \<notin> set (list_all_ids P c s) \<longrightarrow>
        apply_op (DeleteClicked c i) s = s \<and> (\<forall>e. response (DeleteClicked c i) s \<noteq> Some (Error e)))"
proof -
  have "coll_ids c init_db = {}" by (cases c) (simp_all add: init_db_def empty_table_def)
  then have "coll_ids c (run xs init_db) = set (surviving_ids c xs init_db)"
    using run_ids[of c init_db xs] by simp
  then show ?thesis
    by (simp add: set_list_all_ids delete_absent_noop delete_response)
qed

lemmas run_eval = delete_income_clicked_def delete_expense_clicked_def delete_target_clicked_def
  delete_target_def delete_row_def get_all_incomes_def order_by_desc_def income_df_def

text \<open>
  The ids assigned minus all the ids given to deletes is a different set when a delete names
  an id before an add assigns it: add (id 1), delete 2, add (id 2) lists the ids 1 and 2.
\<close>

theorem ids_after_run_counterexample:
  "set (list_all_ids parse_iso Incomes (run ops_delete_first init_db))
     \<noteq> set (assigned_ids Incomes ops_delete_first init_db) - set (deleted_ids Incomes ops_delete_first)"
proof -
  have a: "list_all_ids parse_iso Incomes (run ops_delete_first init_db) = [2, 1]"
    by (simp add: ops_delete_first_def table_eval run_eval)
  have b: "assigned_ids Incomes ops_delete_first init_db = [1, 2]"
    by (simp add: ops_delete_first_def table_eval run_eval)
  have c: "deleted_ids Incomes ops_delete_first = [2]"
    by (simp add: ops_delete_first_def)
  have "(2::nat) \<in> set [2, 1]" by simp
  moreover have "(2::nat) \<notin> set [1, 2] - set [2]" by simp
  ultimately have "set [2, 1] \<noteq> set [1, 2] - set [2::nat]" by metis
  then show ?thesis unfolding a b c .
qed

theorem ids_after_run_witness:
  "set (list_all_ids parse_iso Incomes (run ops_delete_after init_db)) = {2, 3} \<and>
   7 \<notin> set (list_all_ids parse_iso Incomes (run ops_delete_after init_db)) \<and>
   apply_op (DeleteClicked Incomes 7) (run ops_delete_after init_db) = run ops_delete_after init_db \<and>
   response (DeleteClicked Incomes 7) (run ops_delete_after init_db) = Some (Success ''Pemasukan dihapus.'')"
proof -
  note T = ids_after_run [of parse_iso Incomes ops_delete_after 7 "run ops_delete_after init_db"]
  have sv: "surviving_ids Incomes ops_delete_after init_db = [2, 3]"
    by (simp add: ops_delete_after_def table_eval run_eval)
  have ids: "set (list_all_ids parse_iso Incomes (run ops_delete_after init_db)) = {2, 3}"
    using T unfolding sv by simp
  have r: "response (DeleteClicked Incomes 7) (run ops_delete_after init_db) = Some (Success ''Pemasukan dihapus.'')"
    by (simp add: ops_delete_after_def table_eval run_eval)
  have n7: "7 \<notin> set (list_all_ids parse_iso Incomes (run ops_delete_after init_db))"
    unfolding ids by simp
  have noop: "apply_op (DeleteClicked Incomes 7) (run ops_delete_after init_db) = run ops_delete_after init_db"
    using T n7 by blast
  from ids n7 noop r show ?thesis by blast
qed

subsection \<open>The monthly frame\<close>

lemma period_M_str_eq: "period_M_str = strftime_ym"
  by (simp add: fun_eq_iff period_M_str_def strftime_ym_def)

lemma in_month_iff: "in_month k r \<longleftrightarrow> the_date r \<noteq> None \<and> strftime_ym (the (the_date r)) = k"
  by (auto simp: in_month_def split: option.splits)

lemma month_sum_ym_amounts:
  "sum_list (map snd (filter (\<lambda>kv. fst kv = k) (ym_amounts period_M_str rs)))
     = amount_sum (filter (in_month k) rs)"
proof -
  have sel: "filter (\<lambda>r. strftime_ym (the (the_date r)) = k) (filter (\<lambda>r. the_date r \<noteq> None) rs)
           = filter (in_month k) rs"
    unfolding filter_filter by (rule filter_cong) (auto simp: in_month_iff)
  have "filter (\<lambda>kv. fst kv = k) (ym_amounts period_M_str rs)
      = map (\<lambda>r. (strftime_ym (the (the_date r)), amount r))
          (filter (\<lambda>r. strftime_ym (the (the_date r)) = k) (filter (\<lambda>r. the_date r \<noteq> None) rs))"
    by (simp add: ym_amounts_def period_M_str_eq filter_map comp_def del: filter_filter)
  then show ?thesis unfolding sel by (simp add: amount_sum_def comp_def)
qed

lemma keys_ym_amounts:
  "set (map fst (ym_amounts period_M_str rs)) = {k. \<exists>r\<in>set rs. in_month k r}"
  by (auto simp: ym_amounts_def period_M_str_eq in_month_iff image_iff)

lemma keys_groupby_sum: "map fst (groupby_sum exact kvs) = sort (remdups (map fst kvs))"
  by (simp add: groupby_sum_def comp_def)

lemma map_of_groupby_sum:
  "map_of (groupby_sum exact kvs) k =
     (if k \<in> fst ` set kvs then Some (sum_list (map snd (filter (\<lambda>kv. fst kv = k) kvs))) else None)"
proof -
  have "map_of (map (\<lambda>k. (k, f k)) ks) k = (if k \<in> set ks then Some (f k) else None)" for f :: "string \<Rightarrow> real" and ks
    by (induction ks) auto
  then show ?thesis by (simp add: groupby_sum_def)
qed

lemma lookup_groupby_sum:
  "(case map_of (groupby_sum exact kvs) k of None \<Rightarrow> 0 | Some v \<Rightarrow> v)
     = sum_list (map snd (filter (\<lambda>kv. fst kv = k) kvs))"
proof (cases "k \<in> fst ` set kvs")
  case True
  then show ?thesis by (simp add: map_of_groupby_sum)
next
  case False
  then have "filter (\<lambda>kv. fst kv = k) kvs = []" by (auto simp: filter_empty_conv)
  with False show ?thesis by (simp add: map_of_groupby_sum)
qed

lemma ym_merge_outer: "map ym (merge_outer l r) = sort (remdups (map fst l @ map fst r))"
  by (simp add: merge_outer_def comp_def)

lemma sort_key_merge_outer: "sort_key ym (merge_outer l r) = merge_outer l r"
  by (rule sort_key_id_if_sorted) (simp add: ym_merge_outer)

lemma in_month_exists_incomes:
  "(\<exists>r\<in>set (get_all_incomes P s). in_month k r) \<longleftrightarrow> (\<exists>r\<in>set (tbl_rows (incomes s)). month_of P r = Some k)"
  by (simp add: get_all_incomes_def set_order_by_desc in_month_income_df)

lemma in_month_exists_expenses:
  "(\<exists>r\<in>set (get_all_expenses P s). in_month k r) \<longleftrightarrow> (\<exists>r\<in>set (tbl_rows (expenses s)). month_of P r = Some k)"
  by (simp add: get_all_expenses_def set_order_by_desc in_month_expense_df)

lemma prepare_monthly_df_eq:
  "prepare_monthly_df exact P s =
     map (\<lambda>k. \<lparr>income = amount_sum (bucket P k (tbl_rows (incomes s))),
               expense = amount_sum (bucket P k (tbl_rows (expenses s))),
               ym = k\<rparr>)
         (sort (remdups (sort (remdups (map fst (ym_amounts period_M_str (get_all_incomes P s))))
                       @ sort (remdups (map fst (ym_amounts period_M_str (get_all_expenses P s)))))))"
  unfolding prepare_monthly_df_def Let_def sort_key_merge_outer
  by (simp add: merge_outer_def lookup_groupby_sum keys_groupby_sum month_sum_ym_amounts
      month_incomes month_expenses)

lemma ym_prepare_monthly_df:
  "map ym (prepare_monthly_df exact P s) =
         (sort (remdups (sort (remdups (map fst (ym_amounts period_M_str (get_all_incomes P s))))
                       @ sort (remdups (map fst (ym_amounts period_M_str (get_all_expenses P s)))))))"
  by (simp add: prepare_monthly_df_eq comp_def)

text \<open>
  C7. The monthly frame has its \<open>ym\<close> keys strictly ascending (so one row per month), the
  keys are exactly the months of the income and expense records whose date parses, and each
  row carries the sum of that month's incomes and the sum of that month's expenses, which
  is 0 on a side without records in that month.
\<close>

theorem monthly_series_rows:
  "sorted_wrt (<) (map ym (prepare_monthly_df exact P s))
   \<and> set (map ym (prepare_monthly_df exact P s))
       = {k. (\<exists>r\<in>set (tbl_rows (incomes s)). month_of P r = Some k)
            \<or> (\<exists>r\<in>set (tbl_rows (expenses s)). month_of P r = Some k)}
   \<and> (\<forall>row\<in>set (prepare_monthly_df exact P s).
         income row = amount_sum (bucket P (ym row) (tbl_rows (incomes s)))
       \<and> expense row = amount_sum (bucket P (ym row) (tbl_rows (expenses s)))
       \<and> (bucket P (ym row) (tbl_rows (incomes s)) = [] \<longrightarrow> income row = 0)
       \<and> (bucket P (ym row) (tbl_rows (expenses s)) = [] \<longrightarrow> expense row = 0))"
proof -
  have a: "sorted_wrt (<) (map ym (prepare_monthly_df exact P s))"
    by (simp add: ym_prepare_monthly_df strict_sorted_iff)
  have b: "set (map ym (prepare_monthly_df exact P s))
       = {k. (\<exists>r\<in>set (tbl_rows (incomes s)). month_of P r = Some k)
            \<or> (\<exists>r\<in>set (tbl_rows (expenses s)). month_of P r = Some k)}"
    unfolding ym_prepare_monthly_df
    using keys_ym_amounts[of "get_all_incomes P s"] keys_ym_amounts[of "get_all_expenses P s"]
    by (auto simp: in_month_exists_incomes in_month_exists_expenses)
  have c: "\<forall>row\<in>set (prepare_monthly_df exact P s).
         income row = amount_sum (bucket P (ym row) (tbl_rows (incomes s)))
       \<and> expense row = amount_sum (bucket P (ym row) (tbl_rows (expenses s)))"
    by (auto simp: prepare_monthly_df_eq)
  from a b c show ?thesis by (auto simp: amount_sum_Nil)
qed

subsection \<open>Month keys are ordered as the months are\<close>

lemma of_char_digit: "(of_char (digit n) :: nat) = 48 + n mod 10"
  by (simp add: digit_def)

lemma digit_less_iff: "digit a < digit b \<longleftrightarrow> a mod 10 < b mod 10"
  by (simp add: less_char_def of_char_digit)

lemma digit_eq_iff: "digit a = digit b \<longleftrightarrow> a mod 10 = b mod 10"
proof
  assume "digit a = digit b"
  then have "(of_char (digit a) :: nat) = of_char (digit b)" by simp
  then show "a mod 10 = b mod 10" by (simp add: of_char_digit)
next
  assume "a mod 10 = b mod 10"
  then show "digit a = digit b" by (simp add: digit_def)
qed

lemma digits_linear:
  fixes qa ra qb rb :: nat
  assumes "ra < 10" "rb < 10"
  shows "qa * 10 + ra < qb * 10 + rb \<longleftrightarrow> qa < qb \<or> qa = qb \<and> ra < rb"
  using assms by arith

lemma less_by_digits:
  "(a::nat) < b \<longleftrightarrow> a div 10 < b div 10 \<or> a div 10 = b div 10 \<and> a mod 10 < b mod 10"
proof -
  have "a = a div 10 * 10 + a mod 10" "b = b div 10 * 10 + b mod 10" by simp_all
  then have "a < b \<longleftrightarrow> a div 10 * 10 + a mod 10 < b div 10 * 10 + b mod 10" by simp
  also have "\<dots> \<longleftrightarrow> a div 10 < b div 10 \<or> a div 10 = b div 10 \<and> a mod 10 < b mod 10"
    by (rule digits_linear) simp_all
  finally show ?thesis .
qed

lemma eq_by_digits:
  "(a::nat) = b \<longleftrightarrow> a div 10 = b div 10 \<and> a mod 10 = b mod 10"
  by (metis div_mult_mod_eq)

lemma fmt2_less_iff:
  assumes "a < 100" "b < 100"
  shows "fmt2 a < fmt2 b \<longleftrightarrow> a < b"
proof -
  have s: "a div 10 mod 10 = a div 10" "b div 10 mod 10 = b div 10" using assms by simp_all
  show ?thesis
    unfolding fmt2_def
    by (simp add: digit_less_iff digit_eq_iff s less_by_digits[of a b])
qed

lemma fmt2_eq_iff:
  assumes "a < 100" "b < 100"
  shows "fmt2 a = fmt2 b \<longleftrightarrow> a = b"
proof -
  have s: "a div 10 mod 10 = a div 10" "b div 10 mod 10 = b div 10" using assms by simp_all
  show ?thesis
    unfolding fmt2_def
    by (simp add: digit_eq_iff s eq_by_digits[of a b])
qed

lemma fmt4_digits:
  "fmt4 a = [digit (a div 10 div 10 div 10), digit (a div 10 div 10), digit (a div 10), digit a]"
  by (simp add: fmt4_def div_mult2_eq[symmetric])

lemma fmt4_less_iff:
  assumes "a < 10000" "b < 10000"
  shows "fmt4 a < fmt4 b \<longleftrightarrow> a < b"
proof -
  have s: "a div 10 div 10 div 10 mod 10 = a div 10 div 10 div 10"
          "b div 10 div 10 div 10 mod 10 = b div 10 div 10 div 10"
    using assms by (simp_all add: div_mult2_eq[symmetric])
  have l3: "a div 10 div 10 < b div 10 div 10 \<longleftrightarrow>
            a div 10 div 10 div 10 < b div 10 div 10 div 10
            \<or> a div 10 div 10 div 10 = b div 10 div 10 div 10
              \<and> a div 10 div 10 mod 10 < b div 10 div 10 mod 10"
    by (rule less_by_digits)
  have e3: "a div 10 div 10 = b div 10 div 10 \<longleftrightarrow>
            a div 10 div 10 div 10 = b div 10 div 10 div 10
              \<and> a div 10 div 10 mod 10 = b div 10 div 10 mod 10"
    by (rule eq_by_digits)
  have l2: "a div 10 < b div 10 \<longleftrightarrow>
            a div 10 div 10 < b div 10 div 10
            \<or> a div 10 div 10 = b div 10 div 10 \<and> a div 10 mod 10 < b div 10 mod 10"
    by (rule less_by_digits)
  have e2: "a div 10 = b div 10 \<longleftrightarrow>
            a div 10 div 10 = b div 10 div 10 \<and> a div 10 mod 10 = b div 10 mod 10"
    by (rule eq_by_digits)
  have l1: "a < b \<longleftrightarrow> a div 10 < b div 10 \<or> a div 10 = b div 10 \<and> a mod 10 < b mod 10"
    by (rule less_by_digits)
  have "fmt4 a < fmt4 b \<longleftrightarrow>
          a div 10 div 10 div 10 < b div 10 div 10 div 10
          \<or> a div 10 div 10 div 10 = b div 10 div 10 div 10
            \<and> (a div 10 div 10 mod 10 < b div 10 div 10 mod 10
               \<or> a div 10 div 10 mod 10 = b div 10 div 10 mod 10
                 \<and> (a div 10 mod 10 < b div 10 mod 10
                    \<or> a div 10 mod 10 = b div 10 mod 10 \<and> a mod 10 < b mod 10))"
    unfolding fmt4_digits by (simp add: digit_less_iff digit_eq_iff s)
  also have "\<dots> \<longleftrightarrow> a < b"
    unfolding l1 l2 l3 e2 e3 by blast
  finally show ?thesis .
qed

lemma fmt4_eq_iff:
  assumes "a < 10000" "b < 10000"
  shows "fmt4 a = fmt4 b \<longleftrightarrow> a = b"
proof -
  have "\<not> fmt4 a < fmt4 b \<and> \<not> fmt4 b < fmt4 a \<longleftrightarrow> \<not> a < b \<and> \<not> b < a"
    using assms by (simp add: fmt4_less_iff)
  then show ?thesis by auto
qed

lemma strftime_ym_less_iff:
  assumes "calendar_date a" "calendar_date b"
  shows "strftime_ym a < strftime_ym b \<longleftrightarrow> earlier_month a b"
proof -
  have y: "year a < 10000" "year b < 10000" and m: "month a < 100" "month b < 100"
    using assms by (simp_all add: calendar_date_def)
  have app: "xs @ u < ys @ v \<longleftrightarrow> xs < ys \<or> xs = ys \<and> u < v"
    if "length xs = length ys" for xs ys u v :: string
    using that by (induction xs ys rule: list_induct2) auto
  have "strftime_ym a < strftime_ym b \<longleftrightarrow>
          fmt4 (year a) < fmt4 (year b) \<or> fmt4 (year a) = fmt4 (year b) \<and> fmt2 (month a) < fmt2 (month b)"
    unfolding strftime_ym_def
    by (subst app) (simp_all add: fmt4_def)
  then show ?thesis
    by (simp add: fmt4_less_iff fmt4_eq_iff fmt2_less_iff y m earlier_month_def)
qed

subsection \<open>The saving streak\<close>

lemma finite_months_present: "finite (months_present P s)"
proof -
  have "months_present P s \<subseteq> the ` (month_of P ` set (tbl_rows (incomes s)))
                              \<union> the ` (month_of P ` set (tbl_rows (expenses s)))"
    by (force simp: months_present_def)
  then show ?thesis by (rule finite_subset) simp
qed

lemma sort_remdups_set: "sort (remdups xs) = sorted_list_of_set (set xs)"
  by (simp add: sorted_list_of_set_sort_remdups)

lemma keys_ym_column:
  "set (ym_column strftime_ym rs) = {k. \<exists>r\<in>set rs. in_month k r}"
  by (auto simp: ym_column_def in_month_iff image_iff)

lemma months_of_frames:
  "set (ym_column strftime_ym (get_all_incomes P s)) \<union> set (ym_column strftime_ym (get_all_expenses P s))
     = months_present P s"
  by (auto simp: keys_ym_column in_month_exists_incomes in_month_exists_expenses months_present_def)

lemma months_of_frames_period:
  "set (map fst (ym_amounts period_M_str (get_all_incomes P s)))
     \<union> set (map fst (ym_amounts period_M_str (get_all_expenses P s)))
     = months_present P s"
  unfolding keys_ym_amounts
  by (auto simp: in_month_exists_incomes in_month_exists_expenses months_present_def)

lemma prepare_monthly_df_months:
  "prepare_monthly_df exact P s =
     map (\<lambda>k. \<lparr>income = amount_sum (bucket P k (tbl_rows (incomes s))),
               expense = amount_sum (bucket P k (tbl_rows (expenses s))),
               ym = k\<rparr>)
         (sorted_list_of_set (months_present P s))"
proof -
  have "sort (remdups (sort (remdups (map fst (ym_amounts period_M_str (get_all_incomes P s))))
                       @ sort (remdups (map fst (ym_amounts period_M_str (get_all_expenses P s))))))
        = sorted_list_of_set (months_present P s)"
    unfolding sort_remdups_set using months_of_frames_period[of P s] by simp
  then show ?thesis unfolding prepare_monthly_df_eq by simp
qed

lemma collect_map: "(\<And>m. m \<in> set ms \<Longrightarrow> f m = Inr (g m)) \<Longrightarrow> collect f ms = Inr (map g ms)"
  by (induction ms) simp_all

lemma strftime_ym_nonempty: "strftime_ym d \<noteq> []"
  by (simp add: strftime_ym_def fmt4_def)

lemma months_present_nonempty_key: "k \<in> months_present P s \<Longrightarrow> k \<noteq> []"
  by (auto simp: months_present_def month_of_def strftime_ym_nonempty)

lemma streak_loop_takeWhile:
  "streak_loop thr xs c = c + length (takeWhile (\<lambda>p. thr \<le> snd p) xs)"
  by (induction thr xs c rule: streak_loop.induct) simp_all

lemma consecutive_saving_months_eq:
  "consecutive_saving_months exact P s thr =
     Inr (length (takeWhile (\<lambda>p. thr \<le> snd p)
            (rev (map (\<lambda>m. (m, rate_of P s m)) (sorted_list_of_set (months_present P s))))),
          map (\<lambda>m. (m, rate_of P s m)) (sorted_list_of_set (months_present P s)))"
proof -
  let ?months = "sort (remdups (ym_column strftime_ym (get_all_incomes P s)
                               @ ym_column strftime_ym (get_all_expenses P s)))"
  have months: "?months = sorted_list_of_set (months_present P s)"
    unfolding sort_remdups_set using months_of_frames[of P s] by simp
  have col: "collect (\<lambda>m. map_sum id (\<lambda>r. (m, saving_rate r)) (monthly_summary exact P s (Some m)))
               (sorted_list_of_set (months_present P s))
             = Inr (map (\<lambda>m. (m, rate_of P s m)) (sorted_list_of_set (months_present P s)))"
  proof (rule collect_map)
    fix m assume "m \<in> set (sorted_list_of_set (months_present P s))"
    then have "m \<noteq> []" using finite_months_present[of P s] months_present_nonempty_key by auto
    then show "map_sum id (\<lambda>r. (m, saving_rate r)) (monthly_summary exact P s (Some m)) = Inr (m, rate_of P s m)"
      by (simp add: monthly_summary_month rate_of_def)
  qed
  show ?thesis
  proof (cases "get_all_incomes P s = [] \<and> get_all_expenses P s = []")
    case True
    then have "tbl_rows (incomes s) = []" "tbl_rows (expenses s) = []"
      using length_get_all_incomes[of P s] length_get_all_expenses[of P s] by simp_all
    then have "months_present P s = {}" by (simp add: months_present_def)
    with True show ?thesis by (simp add: consecutive_saving_months_def)
  next
    case False
    then show ?thesis
      unfolding consecutive_saving_months_def Let_def months
      by (auto simp: col streak_loop_takeWhile)
  qed
qed

lemma sorted_list_nth_order:
  assumes "sorted_wrt (<) xs" "a \<in> set xs" "b \<in> set xs" "a < (b::'a::linorder)"
  shows "\<exists>i j. i < j \<and> j < length xs \<and> xs ! i = a \<and> xs ! j = b"
proof -
  from assms(2) obtain i where i: "i < length xs" "xs ! i = a" by (auto simp: in_set_conv_nth)
  from assms(3) obtain j where j: "j < length xs" "xs ! j = b" by (auto simp: in_set_conv_nth)
  have "i < j"
  proof (rule ccontr)
    assume "\<not> i < j"
    then have "j \<le> i" by simp
    then have "xs ! j \<le> xs ! i"
      using assms(1) i(1) by (simp add: sorted_nth_mono strict_sorted_iff)
    with i j assms(4) show False by simp
  qed
  with i j show ?thesis by blast
qed

lemma month_key_present:
  "d \<in> parsed_dates P s \<Longrightarrow> strftime_ym d \<in> months_present P s"
  by (auto simp: parsed_dates_def months_present_def month_of_def)

lemma months_present_image: "months_present P s = strftime_ym ` parsed_dates P s"
  by (auto simp: parsed_dates_def months_present_def month_of_def image_iff) 

lemma streak_two:
  fixes thr :: real
  assumes "map snd seq = pre @ [a, b, c]" "a < thr" "thr \<le> b" "thr \<le> c"
  shows "length (takeWhile (\<lambda>p. thr \<le> snd p) (rev seq)) = 2"
proof -
  have "length (takeWhile (\<lambda>p. thr \<le> snd p) (rev seq))
      = length (takeWhile (\<lambda>r. thr \<le> r) (map snd (rev seq)))"
    by (simp add: takeWhile_map comp_def)
  also have "map snd (rev seq) = c # b # a # rev pre"
    using assms(1) by (simp add: rev_map[symmetric])
  also have "takeWhile (\<lambda>r. thr \<le> r) (c # b # a # rev pre) = [c, b]"
    using assms(2-4) by (simp add: not_le)
  finally show ?thesis by simp
qed

lemma summarise_returns: "\<exists>r. summarise A incs exps = Inr r"
  by (simp add: summarise_def truediv_def Let_def)

lemma monthly_summary_returns: "\<exists>r. monthly_summary A P s my = Inr r"
  by (simp add: monthly_summary_def Let_def summarise_returns)

lemma monthly_summary_month_rate:
  "map_sum id (\<lambda>r. (m, saving_rate r)) (monthly_summary A P s (Some m)) = Inr (m, month_rate A P s m)"
proof -
  obtain r where "monthly_summary A P s (Some m) = Inr r"
    using monthly_summary_returns by blast
  then show ?thesis by (simp add: month_rate_def)
qed

lemma consecutive_saving_months_any:
  "consecutive_saving_months A P s thr =
     Inr (length (takeWhile (\<lambda>p. thr \<le> snd p)
            (rev (map (\<lambda>m. (m, month_rate A P s m)) (sorted_list_of_set (months_present P s))))),
          map (\<lambda>m. (m, month_rate A P s m)) (sorted_list_of_set (months_present P s)))"
proof -
  let ?months = "sort (remdups (ym_column strftime_ym (get_all_incomes P s)
                               @ ym_column strftime_ym (get_all_expenses P s)))"
  have months: "?months = sorted_list_of_set (months_present P s)"
    unfolding sort_remdups_set using months_of_frames[of P s] by simp
  have col: "collect (\<lambda>m. map_sum id (\<lambda>r. (m, saving_rate r)) (monthly_summary A P s (Some m))) ms
             = Inr (map (\<lambda>m. (m, month_rate A P s m)) ms)" for ms
    by (rule collect_map) (rule monthly_summary_month_rate)
  show ?thesis
  proof (cases "get_all_incomes P s = [] \<and> get_all_expenses P s = []")
    case True
    then have "tbl_rows (incomes s) = []" "tbl_rows (expenses s) = []"
      using length_get_all_incomes[of P s] length_get_all_expenses[of P s] by simp_all
    then have "months_present P s = {}" by (simp add: months_present_def)
    with True show ?thesis by (simp add: consecutive_saving_months_def)
  next
    case False
    then show ?thesis
      unfolding consecutive_saving_months_def Let_def months
      by (auto simp: col streak_loop_takeWhile)
  qed
qed

text \<open>
  C1. For every float arithmetic \<open>A\<close>, \<open>consecutive_saving_months\<close> never raises. It returns a count \<open>n\<close> and a sequence
  \<open>seq\<close> of (month, saving rate) pairs such that: the month keys are strictly ascending and
  are exactly the months of the records whose date parses; each rate is the saving rate
  \<open>monthly_summary\<close> gives for that month; \<open>n\<close> counts the months from the most recent one
  backward whose rate is at least the threshold, stopping at the first month below it or at
  the start of the sequence. Hence two most recent months at or above the threshold preceded
  by one below it give 2, and an empty history gives 0 and the empty sequence. For dates
  with four-digit years the ascending key order is the chronological order of the months.
\<close>

theorem streak_counts_trailing_months:
  "\<exists>n seq. consecutive_saving_months A P s thr = Inr (n, seq)
     \<and> sorted_wrt (<) (map fst seq)
     \<and> set (map fst seq) = strftime_ym ` parsed_dates P s
     \<and> (\<forall>p\<in>set seq. \<exists>r. monthly_summary A P s (Some (fst p)) = Inr r \<and> snd p = saving_rate r)
     \<and> n \<le> length seq
     \<and> (\<forall>i<n. thr \<le> snd (rev seq ! i))
     \<and> (n < length seq \<longrightarrow> snd (rev seq ! n) < thr)
     \<and> (\<forall>pre a b c. map snd seq = pre @ [a, b, c] \<and> a < thr \<and> thr \<le> b \<and> thr \<le> c \<longrightarrow> n = 2)
     \<and> (tbl_rows (incomes s) = [] \<and> tbl_rows (expenses s) = [] \<longrightarrow> n = 0 \<and> seq = [])
     \<and> (\<forall>d1\<in>parsed_dates P s. \<forall>d2\<in>parsed_dates P s.
           calendar_date d1 \<and> calendar_date d2 \<and> earlier_month d1 d2 \<longrightarrow>
           (\<exists>i j. i < j \<and> j < length seq \<and> fst (seq ! i) = strftime_ym d1
                  \<and> fst (seq ! j) = strftime_ym d2))"
proof -
  define ms where "ms = sorted_list_of_set (months_present P s)"
  define seq where "seq = map (\<lambda>m. (m, month_rate A P s m)) ms"
  define n where "n = length (takeWhile (\<lambda>p. thr \<le> snd p) (rev seq))"
  have fin: "finite (months_present P s)" by (rule finite_months_present)
  have keys: "map fst seq = ms" by (simp add: seq_def comp_def)
  have res: "consecutive_saving_months A P s thr = Inr (n, seq)"
    by (simp add: consecutive_saving_months_any n_def seq_def ms_def)
  have srt: "sorted_wrt (<) (map fst seq)"
    unfolding keys ms_def by (simp add: strict_sorted_iff)
  have st: "set (map fst seq) = strftime_ym ` parsed_dates P s"
    unfolding keys ms_def using fin by (simp add: months_present_image)
  have rates: "\<forall>p\<in>set seq. \<exists>r. monthly_summary A P s (Some (fst p)) = Inr r \<and> snd p = saving_rate r"
  proof
    fix p assume "p \<in> set seq"
    then obtain m where m: "m \<in> months_present P s" "p = (m, month_rate A P s m)"
      using fin by (auto simp: seq_def ms_def)
    obtain r where "monthly_summary A P s (Some m) = Inr r"
      using monthly_summary_returns by blast
    with m show "\<exists>r. monthly_summary A P s (Some (fst p)) = Inr r \<and> snd p = saving_rate r"
      by (simp add: month_rate_def)
  qed
  have le: "n \<le> length seq"
    unfolding n_def using length_takeWhile_le[of "\<lambda>p. thr \<le> snd p" "rev seq"] by simp
  have run: "\<forall>i<n. thr \<le> snd (rev seq ! i)"
  proof (intro allI impI)
    fix i assume "i < n"
    then have i: "i < length (takeWhile (\<lambda>p. thr \<le> snd p) (rev seq))" by (simp add: n_def)
    then have "takeWhile (\<lambda>p. thr \<le> snd p) (rev seq) ! i = rev seq ! i" by (rule takeWhile_nth)
    moreover have "takeWhile (\<lambda>p. thr \<le> snd p) (rev seq) ! i \<in> set (takeWhile (\<lambda>p. thr \<le> snd p) (rev seq))"
      using i by simp
    ultimately show "thr \<le> snd (rev seq ! i)" by (metis set_takeWhileD)
  qed
  have stop: "n < length seq \<longrightarrow> snd (rev seq ! n) < thr"
  proof
    assume "n < length seq"
    then have "n < length (rev seq)" by simp
    then have "\<not> thr \<le> snd (rev seq ! n)"
      unfolding n_def by (rule nth_length_takeWhile)
    then show "snd (rev seq ! n) < thr" by simp
  qed
  have two: "\<forall>pre a b c. map snd seq = pre @ [a, b, c] \<and> a < thr \<and> thr \<le> b \<and> thr \<le> c \<longrightarrow> n = 2"
    unfolding n_def using streak_two by blast
  have empty: "tbl_rows (incomes s) = [] \<and> tbl_rows (expenses s) = [] \<longrightarrow> n = 0 \<and> seq = []"
    by (simp add: n_def seq_def ms_def months_present_def)
  have chron: "\<forall>d1\<in>parsed_dates P s. \<forall>d2\<in>parsed_dates P s.
           calendar_date d1 \<and> calendar_date d2 \<and> earlier_month d1 d2 \<longrightarrow>
           (\<exists>i j. i < j \<and> j < length seq \<and> fst (seq ! i) = strftime_ym d1
                  \<and> fst (seq ! j) = strftime_ym d2)"
  proof (intro ballI impI)
    fix d1 d2 assume d: "d1 \<in> parsed_dates P s" "d2 \<in> parsed_dates P s"
      and c: "calendar_date d1 \<and> calendar_date d2 \<and> earlier_month d1 d2"
    from c have lt: "strftime_ym d1 < strftime_ym d2" by (simp add: strftime_ym_less_iff)
    have "strftime_ym d1 \<in> set (map fst seq)" "strftime_ym d2 \<in> set (map fst seq)"
      using d unfolding st by simp_all
    from sorted_list_nth_order[OF srt this lt]
    obtain i j where "i < j" "j < length (map fst seq)" "map fst seq ! i = strftime_ym d1"
      "map fst seq ! j = strftime_ym d2" by blast
    then show "\<exists>i j. i < j \<and> j < length seq \<and> fst (seq ! i) = strftime_ym d1
                  \<and> fst (seq ! j) = strftime_ym d2"
      by (intro exI[of _ i] exI[of _ j]) simp
  qed
  from res srt st rates le run stop two empty chron show ?thesis by blast
qed

subsection \<open>Sample runs of the monthly frame and the streak\<close>

lemmas frame_eval2 = get_all_incomes_def get_all_expenses_def order_by_desc_def income_df_def
  expense_df_def digit_val_def

lemma month_row_eq: "(r :: month_row) = \<lparr>income = income r, expense = expense r, ym = ym r\<rparr>"
  by (cases r) simp

theorem monthly_series_rows_witness:
  "prepare_monthly_df exact parse_iso scen_two_months =
     [\<lparr>income = 1000000, expense = 400000, ym = ''2024-01''\<rparr>,
      \<lparr>income = 0, expense = 300, ym = ''2024-02''\<rparr>]
   \<and> sorted_wrt (<) (map ym (prepare_monthly_df exact parse_iso scen_two_months))
   \<and> bucket parse_iso ''2024-02'' (tbl_rows (incomes scen_two_months)) = []"
proof -
  note T = monthly_series_rows [of parse_iso scen_two_months]
  have keys: "map ym (prepare_monthly_df exact parse_iso scen_two_months) = [''2024-01'', ''2024-02'']"
    by (simp add: scen_two_months_def table_eval frame_eval2 prepare_monthly_df_def groupby_sum_def
        ym_amounts_def period_M_str_def merge_outer_def)
  have b: "amount_sum (bucket parse_iso ''2024-01'' (tbl_rows (incomes scen_two_months))) = 1000000"
          "amount_sum (bucket parse_iso ''2024-01'' (tbl_rows (expenses scen_two_months))) = 400000"
          "bucket parse_iso ''2024-02'' (tbl_rows (incomes scen_two_months)) = []"
          "amount_sum (bucket parse_iso ''2024-02'' (tbl_rows (expenses scen_two_months))) = 300"
    by (simp_all add: scen_two_months_def table_eval bucket_eval)
  from keys obtain r1 r2 where R: "prepare_monthly_df exact parse_iso scen_two_months = [r1, r2]"
    and k: "ym r1 = ''2024-01''" "ym r2 = ''2024-02''"
    by (auto simp: map_eq_Cons_conv)
  have "income r1 = 1000000" "expense r1 = 400000" "income r2 = 0" "expense r2 = 300"
    using T unfolding R by (simp_all add: k b)
  with k have "r1 = \<lparr>income = 1000000, expense = 400000, ym = ''2024-01''\<rparr>"
    "r2 = \<lparr>income = 0, expense = 300, ym = ''2024-02''\<rparr>"
    using month_row_eq[of r1] month_row_eq[of r2] by simp_all
  with R have "prepare_monthly_df exact parse_iso scen_two_months =
     [\<lparr>income = 1000000, expense = 400000, ym = ''2024-01''\<rparr>,
      \<lparr>income = 0, expense = 300, ym = ''2024-02''\<rparr>]" by simp
  moreover have "sorted_wrt (<) (map ym (prepare_monthly_df exact parse_iso scen_two_months))"
    using T by blast
  ultimately show ?thesis using b(3) by blast
qed

theorem streak_counts_trailing_months_witness:
  "consecutive_saving_months exact parse_iso scen_streak 10 =
     Inr (2, [(''2024-01'', 5), (''2024-02'', 20), (''2024-03'', 50)])
   \<and> tbl_rows (incomes init_db) = [] \<and> tbl_rows (expenses init_db) = []
   \<and> consecutive_saving_months exact parse_iso init_db 10 = Inr (0, [])"
proof -
  have sq: "map_sum id snd (consecutive_saving_months exact parse_iso scen_streak 10)
              = Inr [(''2024-01'', 5), (''2024-02'', 20), (''2024-03'', 50)]"
    by (simp add: scen_streak_def table_eval frame_eval2 consecutive_saving_months_def
        monthly_summary_def ym_column_def strftime_ym_def in_month_def summarise_def
        amount_sum_def truediv_def)
  from streak_counts_trailing_months [of exact parse_iso scen_streak 10]
  obtain n seq where e: "consecutive_saving_months exact parse_iso scen_streak 10 = Inr (n, seq)"
    and two: "\<forall>pre a b c. map snd seq = pre @ [a, b, c] \<and> a < 10 \<and> 10 \<le> b \<and> 10 \<le> c \<longrightarrow> n = 2"
    by blast
  from e sq have seq: "seq = [(''2024-01'', 5), (''2024-02'', 20), (''2024-03'', 50)]" by simp
  then have "map snd seq = [] @ [5, 20, 50]" by simp
  with two [rule_format, of "[]" 5 20 50] have "n = 2" by simp
  with e seq have a: "consecutive_saving_months exact parse_iso scen_streak 10 =
     Inr (2, [(''2024-01'', 5), (''2024-02'', 20), (''2024-03'', 50)])" by simp
  have i: "tbl_rows (incomes init_db) = []" "tbl_rows (expenses init_db) = []"
    by (simp_all add: init_db_def empty_table_def)
  from streak_counts_trailing_months [of exact parse_iso init_db 10]
  obtain n0 seq0 where e0: "consecutive_saving_months exact parse_iso init_db 10 = Inr (n0, seq0)"
    and z: "tbl_rows (incomes init_db) = [] \<and> tbl_rows (expenses init_db) = [] \<longrightarrow> n0 = 0 \<and> seq0 = []"
    by blast
  with i have "consecutive_saving_months exact parse_iso init_db 10 = Inr (0, [])" by simp
  with a i show ?thesis by simp
qed

subsection \<open>Records whose date does not parse\<close>

lemma bucket_parseable:
  "bucket P m (filter (\<lambda>r. P (the_date r) \<noteq> None) rs) = bucket P m rs"
  unfolding bucket_def filter_filter
  by (rule filter_cong) (auto simp: month_of_def)

lemma incomes_drop_unparseable:
  "tbl_rows (incomes (drop_unparseable P s)) = filter (\<lambda>r. P (the_date r) \<noteq> None) (tbl_rows (incomes s))"
  by (simp add: drop_unparseable_def)

lemma expenses_drop_unparseable:
  "tbl_rows (expenses (drop_unparseable P s)) = filter (\<lambda>r. P (the_date r) \<noteq> None) (tbl_rows (expenses s))"
  by (simp add: drop_unparseable_def)

lemma bucket_drop_incomes:
  "bucket P m (tbl_rows (incomes (drop_unparseable P s))) = bucket P m (tbl_rows (incomes s))"
  unfolding incomes_drop_unparseable by (rule bucket_parseable)

lemma bucket_drop_expenses:
  "bucket P m (tbl_rows (expenses (drop_unparseable P s))) = bucket P m (tbl_rows (expenses s))"
  unfolding expenses_drop_unparseable by (rule bucket_parseable)

lemma months_present_drop: "months_present P (drop_unparseable P s) = months_present P s"
  by (auto simp: months_present_def incomes_drop_unparseable expenses_drop_unparseable month_of_def)

lemma rate_of_drop: "rate_of P (drop_unparseable P s) m = rate_of P s m"
  by (simp add: rate_of_def bucket_drop_incomes bucket_drop_expenses)

lemma amount_sum_split:
  "amount_sum rs = amount_sum (filter Q rs) + amount_sum (filter (\<lambda>r. \<not> Q r) rs)"
  by (induction rs) (simp_all add: amount_sum_def)

text \<open>
  C6. The records whose date does not parse play no part in the date-bucketed figures: the
  month-filtered \<open>monthly_summary\<close>, the monthly frame and the streak with its sequence are
  the same as on the database without those records, and none of them raises. Their
  amounts are part of the unfiltered totals: the income and expense totals of
  \<open>monthly_summary\<close> without a month are the sums over the parseable records plus the sums
  over the unparseable ones.
\<close>

theorem unparseable_dates_excluded:
  "(m \<noteq> [] \<longrightarrow>
      monthly_summary exact P s (Some m) = monthly_summary exact P (drop_unparseable P s) (Some m)
      \<and> (\<exists>r. monthly_summary exact P s (Some m) = Inr r))
   \<and> prepare_monthly_df exact P s = prepare_monthly_df exact P (drop_unparseable P s)
   \<and> consecutive_saving_months exact P s thr = consecutive_saving_months exact P (drop_unparseable P s) thr
   \<and> (\<exists>n seq. consecutive_saving_months exact P s thr = Inr (n, seq))
   \<and> (\<exists>r. monthly_summary exact P s None = Inr r
          \<and> income r = amount_sum (tbl_rows (incomes (drop_unparseable P s)))
                        + amount_sum (filter (\<lambda>x. P (the_date x) = None) (tbl_rows (incomes s)))
          \<and> expense r = amount_sum (tbl_rows (expenses (drop_unparseable P s)))
                        + amount_sum (filter (\<lambda>x. P (the_date x) = None) (tbl_rows (expenses s))))"
proof -
  have a: "m \<noteq> [] \<longrightarrow>
      monthly_summary exact P s (Some m) = monthly_summary exact P (drop_unparseable P s) (Some m)
      \<and> (\<exists>r. monthly_summary exact P s (Some m) = Inr r)"
    by (simp add: monthly_summary_month bucket_drop_incomes bucket_drop_expenses)
  have b: "prepare_monthly_df exact P s = prepare_monthly_df exact P (drop_unparseable P s)"
    by (simp add: prepare_monthly_df_months months_present_drop bucket_drop_incomes
        bucket_drop_expenses)
  have c: "consecutive_saving_months exact P s thr = consecutive_saving_months exact P (drop_unparseable P s) thr"
    by (simp add: consecutive_saving_months_eq months_present_drop rate_of_drop)
  have d: "\<exists>n seq. consecutive_saving_months exact P s thr = Inr (n, seq)"
    by (simp add: consecutive_saving_months_eq)
  have e: "\<exists>r. monthly_summary exact P s None = Inr r
          \<and> income r = amount_sum (tbl_rows (incomes (drop_unparseable P s)))
                        + amount_sum (filter (\<lambda>x. P (the_date x) = None) (tbl_rows (incomes s)))
          \<and> expense r = amount_sum (tbl_rows (expenses (drop_unparseable P s)))
                        + amount_sum (filter (\<lambda>x. P (the_date x) = None) (tbl_rows (expenses s)))"
    using amount_sum_split[of "tbl_rows (incomes s)" "\<lambda>r. P (the_date r) \<noteq> None"]
          amount_sum_split[of "tbl_rows (expenses s)" "\<lambda>r. P (the_date r) \<noteq> None"]
    by (simp add: monthly_summary_all summary_of_def incomes_drop_unparseable expenses_drop_unparseable)
  from a b c d e show ?thesis by blast
qed

theorem unparseable_dates_excluded_witness:
  "parse_iso ''entah'' = None
   \<and> map the_date (tbl_rows (incomes scen_two_months)) = [''2024-01-10'', ''entah'']
   \<and> drop_unparseable parse_iso scen_two_months = scen_two_months_parsed
   \<and> ''2024-01'' \<noteq> []
   \<and> monthly_summary exact parse_iso scen_two_months (Some ''2024-01'')
       = Inr \<lparr>income = 1000000, expense = 400000, saved = 600000, saving_rate = 60\<rparr>
   \<and> prepare_monthly_df exact parse_iso scen_two_months = prepare_monthly_df exact parse_iso scen_two_months_parsed
   \<and> consecutive_saving_months exact parse_iso scen_two_months 10
       = consecutive_saving_months exact parse_iso scen_two_months_parsed 10
   \<and> (\<exists>r. monthly_summary exact parse_iso scen_two_months None = Inr r \<and> income r = 1000500 \<and> expense r = 400300)"
proof -
  note T = unparseable_dates_excluded [of "''2024-01''" parse_iso scen_two_months 10]
  have p: "parse_iso ''entah'' = None" by simp
  have rows: "map the_date (tbl_rows (incomes scen_two_months)) = [''2024-01-10'', ''entah'']"
    by (simp add: scen_two_months_def table_eval)
  have dr: "drop_unparseable parse_iso scen_two_months = scen_two_months_parsed"
    by (simp add: scen_two_months_def scen_two_months_parsed_def drop_unparseable_def table_eval
        digit_val_def)
  have jan: "monthly_summary exact parse_iso scen_two_months_parsed (Some ''2024-01'')
       = Inr \<lparr>income = 1000000, expense = 400000, saved = 600000, saving_rate = 60\<rparr>"
    by (simp add: scen_two_months_parsed_def monthly_summary_def frame_eval2 in_month_def
        strftime_ym_def fmt4_def fmt2_def digit_nth summarise_def amount_sum_def truediv_def)
  have un: "amount_sum (filter (\<lambda>x. parse_iso (the_date x) = None) (tbl_rows (incomes scen_two_months))) = 500"
     "amount_sum (filter (\<lambda>x. parse_iso (the_date x) = None) (tbl_rows (expenses scen_two_months))) = 0"
    by (simp_all add: scen_two_months_def table_eval amount_sum_def digit_val_def)
  have pa: "amount_sum (tbl_rows (incomes scen_two_months_parsed)) = 1000000"
     "amount_sum (tbl_rows (expenses scen_two_months_parsed)) = 400300"
    by (simp_all add: scen_two_months_parsed_def amount_sum_def)
  have a: "monthly_summary exact parse_iso scen_two_months (Some ''2024-01'')
       = Inr \<lparr>income = 1000000, expense = 400000, saved = 600000, saving_rate = 60\<rparr>"
    using T unfolding dr jan by simp
  have b: "prepare_monthly_df exact parse_iso scen_two_months = prepare_monthly_df exact parse_iso scen_two_months_parsed"
    using T unfolding dr by blast
  have c: "consecutive_saving_months exact parse_iso scen_two_months 10
       = consecutive_saving_months exact parse_iso scen_two_months_parsed 10"
    using T unfolding dr by blast
  have d: "\<exists>r. monthly_summary exact parse_iso scen_two_months None = Inr r \<and> income r = 1000500 \<and> expense r = 400300"
    using T unfolding dr un pa by simp
  from p rows dr a b c d show ?thesis by simp
qed

end
